theory Spec2Isabelle
  imports Complex_Main "HOL-Library.Word" "HOL-Library.Log_Nat" "HOL-Library.Multiset"
begin

section \<open>CLTune: the tuner's measurement pipeline and its device wrapper\<close>

subsection \<open>Errors and machine integers\<close>

text \<open>
  Every exception of the sources is a \<open>std::runtime_error\<close> carrying a message
  (\<open>Error\<close> and \<open>CheckError\<close> of clpp11.h, the \<open>throw\<close> statements of tuner_impl.cc).
  \<open>UndefinedBehaviour\<close> stands for what C++ leaves undefined and the code does not
  check: an \<open>operator[]\<close> read past the end of a \<open>std::vector\<close> or of a host array,
  a float-to-integer cast out of range. It is not an exception, so no handler catches
  it; the model stops there instead of inventing a value.
\<close>

datatype error = RuntimeError string | UndefinedBehaviour

text \<open>
  A call into the OpenCL wrapper either throws (with the message of \<open>CheckError\<close> or
  \<open>Error\<close>) or returns its value.
\<close>

datatype 'a reply = Throws string | Returns 'a

fun of_reply :: "'a reply \<Rightarrow> error + 'a" where
  "of_reply (Throws msg) = Inl (RuntimeError msg)"
| "of_reply (Returns x) = Inr x"

type_synonym size_t = "64 word"

subsection \<open>Floating point\<close>

text \<open>
  A \<open>float\<close> or \<open>double\<close> value is a finite number, an infinity or NaN. Finite values
  are kept as exact real numbers; every arithmetic operation takes the rounding of its
  format (\<open>round_float\<close> or \<open>round_double\<close>: IEEE 754 round-to-nearest, ties to even,
  with gradual underflow and overflow to infinity) and applies it to the exact result.
  Widening a \<open>float\<close> to a \<open>double\<close> is exact, so it is the identity here.
\<close>

datatype fpval = Fin real | PInf | NInf | NaN

definition pow2 :: "int \<Rightarrow> real" where
  "pow2 e = (if 0 \<le> e then 2 ^ nat e else 1 / 2 ^ nat (- e))"

text \<open>\<open>ilog2 x\<close> is the integer \<open>e\<close> with \<open>2 ^ e \<le> x < 2 ^ (e + 1)\<close>, for \<open>x > 0\<close>.\<close>

definition ilog2 :: "real \<Rightarrow> int" where
  "ilog2 x =
     (if 1 \<le> x then int (floorlog 2 (nat \<lfloor>x\<rfloor>)) - 1
      else - int (floorlog 2 (nat (- \<lfloor>- (1 / x)\<rfloor> - 1))))"

definition round_half_even :: "real \<Rightarrow> int" where
  "round_half_even q =
     (let f = \<lfloor>q\<rfloor>; r = q - of_int f
      in if r < 1 / 2 then f
         else if 1 / 2 < r then f + 1
         else if even f then f else f + 1)"

text \<open>The largest finite value of a format with \<open>prec\<close> significand bits.\<close>

definition max_finite :: "nat \<Rightarrow> int \<Rightarrow> real" where
  "max_finite prec emax = (2 ^ prec - 1) * pow2 (emax - int prec + 1)"

definition round_pos :: "nat \<Rightarrow> int \<Rightarrow> int \<Rightarrow> real \<Rightarrow> fpval" where
  "round_pos prec emin emax x =
     (let e = max (ilog2 x) emin;
          ulp = pow2 (e - int prec + 1);
          y = of_int (round_half_even (x / ulp)) * ulp
      in if max_finite prec emax < y then PInf else Fin y)"

fun fneg :: "fpval \<Rightarrow> fpval" where
  "fneg (Fin x) = Fin (- x)"
| "fneg PInf = NInf"
| "fneg NInf = PInf"
| "fneg NaN = NaN"

definition round_nearest :: "nat \<Rightarrow> int \<Rightarrow> int \<Rightarrow> real \<Rightarrow> fpval" where
  "round_nearest prec emin emax x =
     (if x = 0 then Fin 0
      else if 0 < x then round_pos prec emin emax x
      else fneg (round_pos prec emin emax (- x)))"

definition round_float :: "real \<Rightarrow> fpval" where
  "round_float = round_nearest 24 (- 126) 127"

definition round_double :: "real \<Rightarrow> fpval" where
  "round_double = round_nearest 53 (- 1022) 1023"

text \<open>\<open>std::numeric_limits<float>::max()\<close> and \<open>std::numeric_limits<double>::max()\<close>.\<close>

definition FLT_MAX :: fpval where
  "FLT_MAX = Fin (max_finite 24 127)"

definition DBL_MAX :: fpval where
  "DBL_MAX = Fin (max_finite 53 1023)"

text \<open>\<open>fabs\<close>, \<open>std::isnan\<close>, and the operators \<open>+\<close>, \<open>-\<close>, \<open>*\<close>, \<open><\<close>, \<open>==\<close>.\<close>

fun fabs :: "fpval \<Rightarrow> fpval" where
  "fabs (Fin x) = Fin \<bar>x\<bar>"
| "fabs PInf = PInf"
| "fabs NInf = PInf"
| "fabs NaN = NaN"

fun isnan :: "fpval \<Rightarrow> bool" where
  "isnan NaN = True"
| "isnan _ = False"

fun fadd :: "(real \<Rightarrow> fpval) \<Rightarrow> fpval \<Rightarrow> fpval \<Rightarrow> fpval" where
  "fadd rnd (Fin x) (Fin y) = rnd (x + y)"
| "fadd rnd NaN _ = NaN"
| "fadd rnd _ NaN = NaN"
| "fadd rnd PInf NInf = NaN"
| "fadd rnd NInf PInf = NaN"
| "fadd rnd PInf _ = PInf"
| "fadd rnd _ PInf = PInf"
| "fadd rnd NInf _ = NInf"
| "fadd rnd _ NInf = NInf"

definition fsub :: "(real \<Rightarrow> fpval) \<Rightarrow> fpval \<Rightarrow> fpval \<Rightarrow> fpval" where
  "fsub rnd x y = fadd rnd x (fneg y)"

fun fmul :: "(real \<Rightarrow> fpval) \<Rightarrow> fpval \<Rightarrow> fpval \<Rightarrow> fpval" where
  "fmul rnd (Fin x) (Fin y) = rnd (x * y)"
| "fmul rnd NaN _ = NaN"
| "fmul rnd _ NaN = NaN"
| "fmul rnd (Fin x) PInf = (if x = 0 then NaN else if 0 < x then PInf else NInf)"
| "fmul rnd (Fin x) NInf = (if x = 0 then NaN else if 0 < x then NInf else PInf)"
| "fmul rnd PInf (Fin y) = (if y = 0 then NaN else if 0 < y then PInf else NInf)"
| "fmul rnd NInf (Fin y) = (if y = 0 then NaN else if 0 < y then NInf else PInf)"
| "fmul rnd PInf PInf = PInf"
| "fmul rnd NInf NInf = PInf"
| "fmul rnd PInf NInf = NInf"
| "fmul rnd NInf PInf = NInf"

fun fless :: "fpval \<Rightarrow> fpval \<Rightarrow> bool" where
  "fless (Fin x) (Fin y) = (x < y)"
| "fless NaN _ = False"
| "fless _ NaN = False"
| "fless PInf _ = False"
| "fless NInf NInf = False"
| "fless NInf _ = True"
| "fless (Fin x) PInf = True"
| "fless (Fin x) NInf = False"

fun feq :: "fpval \<Rightarrow> fpval \<Rightarrow> bool" where
  "feq NaN _ = False"
| "feq _ NaN = False"
| "feq x y = (x = y)"

text \<open>\<open>std::min(a, b)\<close> is \<open>(b < a) ? b : a\<close>.\<close>

definition fmin :: "fpval \<Rightarrow> fpval \<Rightarrow> fpval" where
  "fmin a b = (if fless b a then b else a)"

text \<open>
  \<open>static_cast<size_t>\<close> of a floating-point value truncates towards zero; the cast is
  undefined when the truncated value does not fit.
\<close>

fun to_size_t :: "fpval \<Rightarrow> error + size_t" where
  "to_size_t (Fin x) =
     (if - 1 < x \<and> x < 2 ^ 64 then Inr (word_of_nat (nat \<lfloor>x\<rfloor>)) else Inl UndefinedBehaviour)"
| "to_size_t _ = Inl UndefinedBehaviour"

subsection \<open>Device (clpp11.h)\<close>

text \<open>
  The queries of class \<open>Device\<close> go through \<open>GetInfo\<close>/\<open>GetInfoVector\<close>, which call
  \<open>CheckError\<close>: each query either throws or yields its value.
\<close>

record Device =
  MaxWorkGroupSize :: "size_t reply"
  MaxWorkItemDimensions :: "size_t reply"
  MaxWorkItemSizes :: "size_t list reply"
  LocalMemSize :: "size_t reply"

text \<open>\<open>Device::IsLocalMemoryValid\<close>.\<close>

definition IsLocalMemoryValid :: "Device \<Rightarrow> size_t \<Rightarrow> error + bool" where
  "IsLocalMemoryValid dev local_mem_usage =
     (case of_reply (LocalMemSize dev) of
        Inl e \<Rightarrow> Inl e
      | Inr sz \<Rightarrow> Inr (local_mem_usage \<le> sz))"

text \<open>
  The loop \<open>for (i = 0; i < local.size(); ++i) if (local[i] > MaxWorkItemSizes()[i]) return false\<close>
  of \<open>Device::IsThreadConfigValid\<close>, over the indices still to visit. \<open>Inr False\<close> is the
  early \<open>return false\<close>, \<open>Inr True\<close> is falling out of the loop. The vector of maxima is
  read without a bounds check, as in the source: for an axis beyond its end the value
  read is not specified, and nothing is stated about such shapes.
\<close>

fun work_item_loop :: "Device \<Rightarrow> size_t list \<Rightarrow> nat list \<Rightarrow> error + bool" where
  "work_item_loop dev local [] = Inr True"
| "work_item_loop dev local (i # rest) =
     (case of_reply (MaxWorkItemSizes dev) of
        Inl e \<Rightarrow> Inl e
      | Inr sizes \<Rightarrow>
          if local ! i > sizes ! i then Inr False
          else work_item_loop dev local rest)"

text \<open>
  \<open>Device::IsThreadConfigValid\<close>. \<open>local_size\<close> is a \<open>size_t\<close>, so the product wraps
  modulo \<open>2 ^ 64\<close>.
\<close>

definition IsThreadConfigValid :: "Device \<Rightarrow> size_t list \<Rightarrow> error + bool" where
  "IsThreadConfigValid dev local =
     (let local_size = foldl (*) 1 local in
      case work_item_loop dev local [0..<length local] of
        Inl e \<Rightarrow> Inl e
      | Inr False \<Rightarrow> Inr False
      | Inr True \<Rightarrow>
          (case of_reply (MaxWorkGroupSize dev) of
             Inl e \<Rightarrow> Inl e
           | Inr wg \<Rightarrow>
               if local_size > wg then Inr False
               else (case of_reply (MaxWorkItemDimensions dev) of
                       Inl e \<Rightarrow> Inl e
                     | Inr dims \<Rightarrow>
                         if length local > unat dims then Inr False else Inr True)))"

subsection \<open>Data of the tuner (tuner_impl.cc)\<close>

text \<open>
  The declarations of tuner_impl.h and kernel_info.h are not part of the sources at hand;
  the records below hold the members that tuner_impl.cc reads and writes. \<open>kUnsupported\<close>
  stands for any value of \<open>MemType\<close> outside the six that the \<open>switch\<close> statements
  name: it takes their \<open>default\<close> branch.
\<close>

datatype MemType = kInt | kSizeT | kFloat | kDouble | kFloat2 | kDouble2 | kUnsupported

record MemArgument =
  index :: nat
  size_mem :: nat
  type :: MemType
  buffer :: nat

record Setting =
  setting_name :: string
  setting_value :: size_t

type_synonym Configuration = "Setting list"

record Parameter =
  parameter_name :: string
  parameter_values :: "size_t list"

record KernelInfo =
  name :: string
  source :: string
  parameters :: "Parameter list"
  configurations :: "Configuration list"
  global :: "size_t list"
  local :: "size_t list"

record TunerResult =
  kernel_name :: string
  time :: fpval
  threads :: size_t
  status :: bool
  configuration :: Configuration

datatype BuildStatus = kSuccess | kError | kInvalid

datatype SearchMethod = FullSearch | RandomSearch | Annealing | PSO

datatype Model = kLinearRegression | kOtherModel

datatype Message = kMessageFailure | kMessageWarning

text \<open>
  \<open>RunKernel\<close> takes its kernel by reference: \<open>kernel_ref\<close> says which object the
  reference is bound to, the reference kernel or the \<open>k\<close>-th tunable kernel.
\<close>

datatype kernel_ref = ReferenceKernel | TunedKernel nat

text \<open>
  The log of a run: every call into the OpenCL wrapper, in order, together with the
  entries of \<open>RunKernel\<close>, \<open>DownloadReference\<close> and \<open>DownloadAndCompare\<close>, the calls
  of \<open>PrintResult\<close> and the line \<open>Results differ: L2 norm is ...\<close> that
  \<open>DownloadAndCompare\<close> prints. \<open>CallGetElapsedTime\<close> also records what the call
  returned. The other lines printed to \<open>stdout\<close>, among them those of \<open>PrintHeader\<close>,
  and the search log written by \<open>PrintLog\<close> change nothing that is modelled here and
  are left out.
\<close>

datatype event =
    EnterRunKernel kernel_ref nat nat
  | CallBuild string
  | CallGetBuildInfo
  | CallWrite nat
  | CallCreateKernel string
  | CallSetArgument nat
  | CallLocalMemUsage
  | CallFinish
  | CallLaunch "size_t list" "size_t list"
  | CallGetElapsedTime nat "fpval reply"
  | EnterDownloadReference nat
  | EnterDownloadAndCompare nat nat
  | CallRead nat
  | PrintResultsDiffer fpval
  | CallPrintResult Message TunerResult

subsection \<open>The environment\<close>

text \<open>
  The device behind the wrapper classes of clpp11.h. Each operation answers a call given
  the log so far, so a device may answer the same call differently over time. \<open>Build\<close>
  covers the constructor of \<open>Program\<close> and \<open>Program::Build\<close>; \<open>Profile\<close> gives the start and
  end counters that \<open>Event::GetElapsedTime\<close> reads after \<open>clWaitForEvents\<close>; \<open>Read\<close> gives
  the cells of a buffer, of a raw type \<open>'r\<close> that the \<open>as_\<close> functions view at each
  element type.
\<close>

record 'r OpenCL =
  Build :: "event list \<Rightarrow> string \<Rightarrow> BuildStatus reply"
  GetBuildInfo :: "event list \<Rightarrow> string reply"
  Write :: "event list \<Rightarrow> MemArgument \<Rightarrow> unit reply"
  CreateKernel :: "event list \<Rightarrow> string \<Rightarrow> unit reply"
  SetArgument :: "event list \<Rightarrow> nat \<Rightarrow> unit reply"
  LocalMemUsage :: "event list \<Rightarrow> size_t reply"
  Finish :: "event list \<Rightarrow> unit reply"
  Launch :: "event list \<Rightarrow> size_t list \<Rightarrow> size_t list \<Rightarrow> unit reply"
  Profile :: "event list \<Rightarrow> nat \<Rightarrow> (size_t \<times> size_t) reply"
  Read :: "event list \<Rightarrow> MemArgument \<Rightarrow> (nat \<Rightarrow> 'r) reply"

record 'r Cells =
  as_int :: "'r \<Rightarrow> 32 word"
  as_size_t :: "'r \<Rightarrow> size_t"
  as_float :: "'r \<Rightarrow> fpval"
  as_double :: "'r \<Rightarrow> fpval"
  as_float2 :: "'r \<Rightarrow> fpval \<times> fpval"
  as_double2 :: "'r \<Rightarrow> fpval \<times> fpval"

text \<open>
  Modelled from the spec: the members of \<open>KernelInfo\<close> and \<open>Setting\<close> that tuner_impl.cc
  calls and whose code (kernel_info.cc) is missing. \<open>GetDefine\<close> gives the
  \<open>#define NAME VALUE\<close> line of a setting, \<open>SetConfigurations\<close> the enumeration of the
  valid configurations, \<open>ComputeRanges\<close> the global and local sizes of a configuration.
\<close>

record KernelOps =
  GetDefine :: "Setting \<Rightarrow> string"
  SetConfigurations :: "KernelInfo \<Rightarrow> Configuration list reply"
  ComputeRanges :: "KernelInfo \<Rightarrow> Configuration \<Rightarrow> (size_t list \<times> size_t list) reply"

text \<open>
  Modelled from the spec: the interface of the searchers (full_search.cc, random_search.cc,
  annealing.cc and pso.cc are missing), over a searcher state \<open>'s\<close>.
\<close>

record 's SearcherOps =
  NewSearcher :: "SearchMethod \<Rightarrow> Configuration list \<Rightarrow> Parameter list \<Rightarrow> fpval list \<Rightarrow> 's"
  NumConfigurations :: "'s \<Rightarrow> nat"
  GetConfiguration :: "'s \<Rightarrow> Configuration"
  PushExecutionTime :: "fpval \<Rightarrow> 's \<Rightarrow> 's"
  CalculateNextIndex :: "'s \<Rightarrow> 's"

text \<open>
  Modelled from the spec: training and prediction of the machine-learning model (the base
  class \<open>MLModel\<close> is missing), over a trained model \<open>'m\<close>, and \<open>std::sort\<close>, whose order
  of equal elements the standard leaves open.
\<close>

record 'm ModelOps =
  Train :: "fpval list list \<Rightarrow> fpval list \<Rightarrow> 'm"
  Predict :: "'m \<Rightarrow> fpval list \<Rightarrow> fpval"
  std_sort :: "(nat \<times> fpval) list \<Rightarrow> (nat \<times> fpval) list"

text \<open>
  \<open>kNumRuns\<close> and \<open>kMaxL2Norm\<close> are constants of the missing header tuner_impl.h.
\<close>

record ('r, 's, 'm) world =
  kNumRuns :: nat
  kMaxL2Norm :: fpval
  device :: Device
  cl :: "'r OpenCL"
  cells :: "'r Cells"
  kernel_ops :: KernelOps
  searcher :: "'s SearcherOps"
  model :: "'m ModelOps"

subsection \<open>The state of the tuner\<close>

text \<open>
  The data members of \<open>TunerImpl\<close>, without the trailing underscore of their C++ names,
  and \<open>calls\<close>, the log.
\<close>

record 'r TunerImpl =
  has_reference :: bool
  reference_kernel :: KernelInfo
  kernels :: "KernelInfo list"
  arguments_input :: "MemArgument list"
  arguments_output :: "MemArgument list"
  arguments_int :: "(nat \<times> 32 word) list"
  arguments_size_t :: "(nat \<times> size_t) list"
  arguments_float :: "(nat \<times> fpval) list"
  arguments_double :: "(nat \<times> fpval) list"
  arguments_float2 :: "(nat \<times> fpval \<times> fpval) list"
  arguments_double2 :: "(nat \<times> fpval \<times> fpval) list"
  search_method :: SearchMethod
  search_args :: "fpval list"
  reference_outputs :: "'r list list"
  tuning_results :: "TunerResult list"
  calls :: "event list"

subsection \<open>Exceptions and state\<close>

text \<open>
  A statement runs on a state and either throws or returns a value; the state it leaves
  behind is kept in both cases.
\<close>

type_synonym ('a, 'st) exn = "'st \<Rightarrow> (error + 'a) \<times> 'st"

definition return_exn :: "'a \<Rightarrow> ('a, 'st) exn" where
  "return_exn x st = (Inr x, st)"

definition throw_exn :: "error \<Rightarrow> ('a, 'st) exn" where
  "throw_exn e st = (Inl e, st)"

definition bind_exn :: "('a, 'st) exn \<Rightarrow> ('a \<Rightarrow> ('b, 'st) exn) \<Rightarrow> ('b, 'st) exn" where
  "bind_exn m f st = (case m st of (Inl e, st') \<Rightarrow> (Inl e, st') | (Inr x, st') \<Rightarrow> f x st')"

definition lift_exn :: "error + 'a \<Rightarrow> ('a, 'st) exn" where
  "lift_exn r st = (r, st)"

fun foreach_exn :: "('a \<Rightarrow> (unit, 'st) exn) \<Rightarrow> 'a list \<Rightarrow> (unit, 'st) exn" where
  "foreach_exn f [] = return_exn ()"
| "foreach_exn f (x # xs) = bind_exn (f x) (\<lambda>_. foreach_exn f xs)"

text \<open>A call into the wrapper: the device answers on the log so far, the call is logged.\<close>

definition call :: "event \<Rightarrow> (event list \<Rightarrow> 'a reply) \<Rightarrow> ('a, 'r TunerImpl) exn" where
  "call ev answer st = (of_reply (answer (calls st)), st\<lparr>calls := calls st @ [ev]\<rparr>)"

definition log_event :: "event \<Rightarrow> (unit, 'r TunerImpl) exn" where
  "log_event ev st = (Inr (), st\<lparr>calls := calls st @ [ev]\<rparr>)"

subsection \<open>RunKernel\<close>

text \<open>\<open>ResetMemArgument<T>\<close>: writes \<open>argument.size\<close> zeroes of type \<open>T\<close> to the buffer.\<close>

definition ResetMemArgument ::
  "('r, 's, 'm) world \<Rightarrow> MemArgument \<Rightarrow> (unit, 'r TunerImpl) exn" where
  "ResetMemArgument w argument =
     call (CallWrite (buffer argument)) (\<lambda>h. Write (cl w) h argument)"

text \<open>The loop that sets the output buffers to zero, with its \<open>switch\<close> on the type.\<close>

definition reset_outputs :: "('r, 's, 'm) world \<Rightarrow> (unit, 'r TunerImpl) exn" where
  "reset_outputs w st =
     foreach_exn
       (\<lambda>output.
          case type output of
            kUnsupported \<Rightarrow> throw_exn (RuntimeError ''Unsupported reference output data-type'')
          | _ \<Rightarrow> ResetMemArgument w output)
       (arguments_output st) st"

text \<open>
  The eight loops of \<open>tune_kernel.SetArgument\<close> visit the argument vectors in this order;
  only the position of an argument reaches the device in this model.
\<close>

definition argument_positions :: "'r TunerImpl \<Rightarrow> nat list" where
  "argument_positions st =
     map index (arguments_input st) @ map index (arguments_output st) @
     map fst (arguments_int st) @ map fst (arguments_size_t st) @
     map fst (arguments_float st) @ map fst (arguments_double st) @
     map fst (arguments_float2 st) @ map fst (arguments_double2 st)"

definition set_arguments :: "('r, 's, 'm) world \<Rightarrow> (unit, 'r TunerImpl) exn" where
  "set_arguments w st =
     foreach_exn (\<lambda>i. call (CallSetArgument i) (\<lambda>h. SetArgument (cl w) h i))
       (argument_positions st) st"

text \<open>
  \<open>Event::GetElapsedTime\<close>: \<open>(time_end - time_start) * 1.0e-6f\<close>, a \<open>size_t\<close> difference
  converted to \<open>float\<close> and multiplied in \<open>float\<close>.
\<close>

definition elapsed_ms :: "size_t \<times> size_t \<Rightarrow> fpval" where
  "elapsed_ms counters =
     fmul round_float (round_float (real (unat (snd counters - fst counters))))
       (round_float (1 / 1000000))"

definition GetElapsedTime :: "('r, 's, 'm) world \<Rightarrow> nat \<Rightarrow> (fpval, 'r TunerImpl) exn" where
  "GetElapsedTime w t st =
     (let answer = map_reply elapsed_ms (Profile (cl w) (calls st) t)
      in (of_reply answer, st\<lparr>calls := calls st @ [CallGetElapsedTime t answer]\<rparr>))"

text \<open>
  The loop that collects the timing information:
  \<open>elapsed_time = std::min(elapsed_time, events[t].GetElapsedTime())\<close>.
\<close>

fun timing_loop ::
  "('r, 's, 'm) world \<Rightarrow> nat list \<Rightarrow> fpval \<Rightarrow> (fpval, 'r TunerImpl) exn" where
  "timing_loop w [] elapsed_time = return_exn elapsed_time"
| "timing_loop w (t # ts) elapsed_time =
     bind_exn (GetElapsedTime w t)
       (\<lambda>this_elapsed_time. timing_loop w ts (fmin elapsed_time this_elapsed_time))"

text \<open>The launch loop: \<open>tune_kernel.Launch\<close> followed by \<open>queue_.Finish(events[t])\<close>.\<close>

definition launch_loop ::
  "('r, 's, 'm) world \<Rightarrow> size_t list \<Rightarrow> size_t list \<Rightarrow> (unit, 'r TunerImpl) exn" where
  "launch_loop w global_size local_size =
     foreach_exn
       (\<lambda>t. bind_exn (call (CallLaunch global_size local_size)
                         (\<lambda>h. Launch (cl w) h global_size local_size))
               (\<lambda>_. call CallFinish (Finish (cl w))))
       [0..<kNumRuns w]"

text \<open>
  The body of the \<open>try\<close> block of \<open>RunKernel\<close>, in two parts: everything up to the
  \<open>queue_.Finish()\<close> that follows the launches, and the rest. When the build fails,
  \<open>GetBuildInfo\<close> is called before the exception is thrown.
\<close>

definition RunKernel_launch ::
  "('r, 's, 'm) world \<Rightarrow> string \<Rightarrow> KernelInfo \<Rightarrow> (unit, 'r TunerImpl) exn" where
  "RunKernel_launch w processed_source kernel_info =
     bind_exn (call (CallBuild processed_source) (\<lambda>h. Build (cl w) h processed_source))
       (\<lambda>build_status.
     bind_exn
       (if build_status = kError then
          bind_exn (call CallGetBuildInfo (GetBuildInfo (cl w)))
            (\<lambda>message. throw_exn (RuntimeError ''OpenCL compiler error/warning occurred ^^''))
        else if build_status = kInvalid then
          throw_exn (RuntimeError ''Invalid program binary'')
        else return_exn ())
       (\<lambda>_.
     bind_exn (reset_outputs w) (\<lambda>_.
     bind_exn (call (CallCreateKernel (name kernel_info))
                 (\<lambda>h. CreateKernel (cl w) h (name kernel_info)))
       (\<lambda>_.
     bind_exn (set_arguments w) (\<lambda>_.
     bind_exn (call CallLocalMemUsage (LocalMemUsage (cl w))) (\<lambda>local_mem_usage.
     bind_exn (lift_exn (IsLocalMemoryValid (device w) local_mem_usage)) (\<lambda>valid.
     bind_exn
       (if \<not> valid then throw_exn (RuntimeError ''Using too much local memory'')
        else return_exn ())
       (\<lambda>_.
     bind_exn (call CallFinish (Finish (cl w))) (\<lambda>_.
     bind_exn (launch_loop w (global kernel_info) (local kernel_info)) (\<lambda>_.
     call CallFinish (Finish (cl w))))))))))))"

definition RunKernel_try ::
  "('r, 's, 'm) world \<Rightarrow> string \<Rightarrow> KernelInfo \<Rightarrow> (TunerResult, 'r TunerImpl) exn" where
  "RunKernel_try w processed_source kernel_info =
     bind_exn (RunKernel_launch w processed_source kernel_info) (\<lambda>_.
     bind_exn (timing_loop w [0..<kNumRuns w] FLT_MAX) (\<lambda>elapsed_time.
     return_exn
       \<lparr> kernel_name = name kernel_info, time = elapsed_time,
         threads = foldl (*) 1 (local kernel_info), status = False,
         configuration = [] \<rparr>))"

text \<open>
  \<open>RunKernel\<close>: the handler \<open>catch (std::exception& e)\<close> turns every exception of the
  \<open>try\<close> block into the invalid result.
\<close>

definition RunKernel ::
  "('r, 's, 'm) world \<Rightarrow> string \<Rightarrow> KernelInfo \<Rightarrow> kernel_ref \<Rightarrow> nat \<Rightarrow> nat \<Rightarrow>
   (TunerResult, 'r TunerImpl) exn" where
  "RunKernel w source_text kernel_info kref configuration_id num_configurations st =
     (case RunKernel_try w source_text kernel_info
             (st\<lparr>calls := calls st @
                [EnterRunKernel kref configuration_id num_configurations]\<rparr>) of
        (Inr result, st') \<Rightarrow> (Inr result, st')
      | (Inl (RuntimeError msg), st') \<Rightarrow>
          (Inr \<lparr> kernel_name = name kernel_info, time = FLT_MAX, threads = 0, status = False,
                 configuration = [] \<rparr>, st')
      | (Inl UndefinedBehaviour, st') \<Rightarrow> (Inl UndefinedBehaviour, st'))"

subsection \<open>The reference output and its verification\<close>

text \<open>\<open>DownloadReference<T>\<close> and \<open>StoreReferenceOutput\<close>.\<close>

definition DownloadReference ::
  "('r, 's, 'm) world \<Rightarrow> MemArgument \<Rightarrow> (unit, 'r TunerImpl) exn" where
  "DownloadReference w device_buffer =
     bind_exn (log_event (EnterDownloadReference (buffer device_buffer))) (\<lambda>_.
     bind_exn (call (CallRead (buffer device_buffer)) (\<lambda>h. Read (cl w) h device_buffer))
       (\<lambda>host_cells st.
          (Inr (), st\<lparr>reference_outputs :=
                        reference_outputs st @
                          [map host_cells [0..<size_mem device_buffer]]\<rparr>)))"

definition StoreReferenceOutput :: "('r, 's, 'm) world \<Rightarrow> (unit, 'r TunerImpl) exn" where
  "StoreReferenceOutput w st =
     foreach_exn
       (\<lambda>output_buffer.
          case type output_buffer of
            kUnsupported \<Rightarrow> throw_exn (RuntimeError ''Unsupported reference output data-type'')
          | _ \<Rightarrow> DownloadReference w output_buffer)
       (arguments_output st) (st\<lparr>reference_outputs := []\<rparr>)"

text \<open>
  \<open>AbsoluteDifference\<close>: the generic template, given the widening of \<open>T\<close> to \<open>double\<close>,
  and the specialisations for \<open>float2\<close> and \<open>double2\<close>.
\<close>

definition AbsoluteDifference :: "('t \<Rightarrow> fpval) \<Rightarrow> 't \<Rightarrow> 't \<Rightarrow> fpval" where
  "AbsoluteDifference to_double reference result =
     fabs (fsub round_double (to_double reference) (to_double result))"

definition AbsoluteDifference2 :: "fpval \<times> fpval \<Rightarrow> fpval \<times> fpval \<Rightarrow> fpval" where
  "AbsoluteDifference2 reference result =
     (let real_part = fabs (fsub round_double (fst reference) (fst result));
          imag_part = fabs (fsub round_double (snd reference) (snd result))
      in fadd round_double real_part imag_part)"

text \<open>The widenings \<open>static_cast<double>\<close> of the four scalar element types.\<close>

definition int_to_double :: "32 word \<Rightarrow> fpval" where
  "int_to_double x = round_double (real_of_int (sint x))"

definition size_t_to_double :: "size_t \<Rightarrow> fpval" where
  "size_t_to_double x = round_double (real (unat x))"

text \<open>
  How \<open>AbsoluteDifference<T>\<close> sees two raw cells, for each element type. There is no
  instance for \<open>kUnsupported\<close>: \<open>VerifyOutput\<close> throws before it would be used.
\<close>

fun difference_at :: "'r Cells \<Rightarrow> MemType \<Rightarrow> 'r \<Rightarrow> 'r \<Rightarrow> fpval" where
  "difference_at c kInt x y = AbsoluteDifference int_to_double (as_int c x) (as_int c y)"
| "difference_at c kSizeT x y =
     AbsoluteDifference size_t_to_double (as_size_t c x) (as_size_t c y)"
| "difference_at c kFloat x y = AbsoluteDifference (\<lambda>v. v) (as_float c x) (as_float c y)"
| "difference_at c kDouble x y = AbsoluteDifference (\<lambda>v. v) (as_double c x) (as_double c y)"
| "difference_at c kFloat2 x y = AbsoluteDifference2 (as_float2 c x) (as_float2 c y)"
| "difference_at c kDouble2 x y = AbsoluteDifference2 (as_double2 c x) (as_double2 c y)"
| "difference_at c kUnsupported x y = NaN"

text \<open>
  The loop \<open>l2_norm += AbsoluteDifference(reference_output[j], host_buffer[j])\<close> over the
  indices still to visit. The reference array is read without a bounds check.
\<close>

fun l2_loop ::
  "('r \<Rightarrow> 'r \<Rightarrow> fpval) \<Rightarrow> 'r list \<Rightarrow> 'r list \<Rightarrow> nat list \<Rightarrow> fpval \<Rightarrow> error + fpval" where
  "l2_loop diff reference_output host_buffer [] l2_norm = Inr l2_norm"
| "l2_loop diff reference_output host_buffer (j # js) l2_norm =
     (if j < length reference_output \<and> j < length host_buffer then
        l2_loop diff reference_output host_buffer js
          (fadd round_double l2_norm (diff (reference_output ! j) (host_buffer ! j)))
      else Inl UndefinedBehaviour)"

text \<open>\<open>DownloadAndCompare<T>\<close>, for the element type \<open>T\<close> of the buffer.\<close>

definition DownloadAndCompare ::
  "('r, 's, 'm) world \<Rightarrow> MemType \<Rightarrow> MemArgument \<Rightarrow> nat \<Rightarrow> (bool, 'r TunerImpl) exn" where
  "DownloadAndCompare w T device_buffer i =
     bind_exn (log_event (EnterDownloadAndCompare (buffer device_buffer) i)) (\<lambda>_.
     bind_exn (call (CallRead (buffer device_buffer)) (\<lambda>h. Read (cl w) h device_buffer))
       (\<lambda>host_cells.
     bind_exn
       (\<lambda>st. if i < length (reference_outputs st) then (Inr (reference_outputs st ! i), st)
             else (Inl UndefinedBehaviour, st))
       (\<lambda>reference_output.
     bind_exn
       (lift_exn
          (l2_loop (difference_at (cells w) T) reference_output
             (map host_cells [0..<size_mem device_buffer])
             [0..<size_mem device_buffer] (Fin 0)))
       (\<lambda>l2_norm.
          if isnan l2_norm \<or> fless (kMaxL2Norm w) l2_norm then
            bind_exn (log_event (PrintResultsDiffer l2_norm)) (\<lambda>_. return_exn False)
          else return_exn True))))"

text \<open>The loop of \<open>VerifyOutput\<close> over the output buffers, and \<open>VerifyOutput\<close>.\<close>

fun verify_loop ::
  "('r, 's, 'm) world \<Rightarrow> MemArgument list \<Rightarrow> nat \<Rightarrow> bool \<Rightarrow> (bool, 'r TunerImpl) exn" where
  "verify_loop w [] i ok = return_exn ok"
| "verify_loop w (output_buffer # rest) i ok =
     bind_exn
       (case type output_buffer of
          kUnsupported \<Rightarrow> throw_exn (RuntimeError ''Unsupported output data-type'')
        | T \<Rightarrow> DownloadAndCompare w T output_buffer i)
       (\<lambda>same. verify_loop w rest (i + 1) (ok \<and> same))"

definition VerifyOutput :: "('r, 's, 'm) world \<Rightarrow> (bool, 'r TunerImpl) exn" where
  "VerifyOutput w st =
     (if has_reference st then verify_loop w (arguments_output st) 0 True st
      else return_exn True st)"

subsection \<open>Tune\<close>

definition store_result :: "TunerResult \<Rightarrow> (unit, 'r TunerImpl) exn" where
  "store_result tuning_result st =
     (Inr (), st\<lparr>tuning_results := tuning_results st @ [tuning_result]\<rparr>)"

text \<open>
  What follows \<open>tuning_results_.push_back(tuning_result)\<close>, in \<open>Tune\<close> and in
  \<open>ModelPrediction\<close> alike: the comparison of the time with
  \<open>std::numeric_limits<double>::max()\<close> and the two calls of \<open>PrintResult\<close>. The copy that
  is printed as a failure has its time set to \<open>0.0\<close>; the stored result is not touched.
\<close>

definition report_result :: "TunerResult \<Rightarrow> (unit, 'r TunerImpl) exn" where
  "report_result tuning_result =
     (if feq (time tuning_result) DBL_MAX then
        log_event (CallPrintResult kMessageFailure (tuning_result\<lparr>time := Fin 0\<rparr>))
      else if \<not> status tuning_result then
        log_event (CallPrintResult kMessageWarning tuning_result)
      else return_exn ())"

text \<open>\<open>kernel.ComputeRanges(permutation)\<close> on the \<open>k\<close>-th kernel.\<close>

definition compute_ranges ::
  "('r, 's, 'm) world \<Rightarrow> nat \<Rightarrow> Configuration \<Rightarrow> (unit, 'r TunerImpl) exn" where
  "compute_ranges w k permutation st =
     (case of_reply (ComputeRanges (kernel_ops w) (kernels st ! k) permutation) of
        Inl e \<Rightarrow> (Inl e, st)
      | Inr ranges \<Rightarrow>
          (Inr (), st\<lparr>kernels :=
                        (kernels st)[k := (kernels st ! k)
                                            \<lparr>global := fst ranges, local := snd ranges\<rparr>]\<rparr>))"

text \<open>
  Compiling, running and recording one configuration of the \<open>k\<close>-th kernel: the code
  shared by the body of the tuning loop and by the loop over the best-predicted
  configurations of \<open>ModelPrediction\<close>.
\<close>

definition measure_configuration ::
  "('r, 's, 'm) world \<Rightarrow> nat \<Rightarrow> Configuration \<Rightarrow> nat \<Rightarrow> nat \<Rightarrow>
   (TunerResult, 'r TunerImpl) exn" where
  "measure_configuration w k permutation configuration_id num_configurations =
     bind_exn (compute_ranges w k permutation) (\<lambda>_.
     bind_exn
       (\<lambda>st. RunKernel w
                (concat (map (GetDefine (kernel_ops w)) permutation) @ source (kernels st ! k))
                (kernels st ! k) (TunedKernel k) configuration_id num_configurations st)
       (\<lambda>tuning_result.
     bind_exn (VerifyOutput w) (\<lambda>verified.
       return_exn (tuning_result\<lparr>status := verified\<rparr>))))"

text \<open>One iteration of the loop over the configurations of the searcher.\<close>

definition tune_iteration ::
  "('r, 's, 'm) world \<Rightarrow> nat \<Rightarrow> nat \<Rightarrow> 's \<Rightarrow> ('s, 'r TunerImpl) exn" where
  "tune_iteration w k p search =
     (let permutation = GetConfiguration (searcher w) search
      in bind_exn
           (measure_configuration w k permutation p (NumConfigurations (searcher w) search))
           (\<lambda>tuning_result.
              let search' = CalculateNextIndex (searcher w)
                              (PushExecutionTime (searcher w) (time tuning_result) search);
                  stored = tuning_result\<lparr>configuration := permutation\<rparr>
              in bind_exn (store_result stored) (\<lambda>_.
                 bind_exn (report_result stored) (\<lambda>_.
                 return_exn search'))))"

text \<open>
  The loop \<open>for (p = 0; p < search->NumConfigurations(); ++p)\<close>. The bound is read from
  the searcher at every iteration, so the loop need not end: \<open>None\<close> is not returning.
\<close>

partial_function (option) tune_loop ::
  "('r, 's, 'm) world \<Rightarrow> nat \<Rightarrow> nat \<Rightarrow> 's \<Rightarrow> 'r TunerImpl \<Rightarrow>
   ((error + 's) \<times> 'r TunerImpl) option" where
  "tune_loop w k p search st =
     (if p < NumConfigurations (searcher w) search then
        (case tune_iteration w k p search st of
           (Inl e, st') \<Rightarrow> Some (Inl e, st')
         | (Inr search', st') \<Rightarrow> tune_loop w k (p + 1) search' st')
      else Some (Inr search, st))"

text \<open>
  The \<open>switch\<close> that creates the searcher reads \<open>search_args_[0]\<close> to \<open>search_args_[4]\<close>
  without a bounds check.
\<close>

fun num_search_args :: "SearchMethod \<Rightarrow> nat" where
  "num_search_args FullSearch = 0"
| "num_search_args RandomSearch = 1"
| "num_search_args Annealing = 2"
| "num_search_args PSO = 5"

definition new_searcher ::
  "('r, 's, 'm) world \<Rightarrow> KernelInfo \<Rightarrow> 'r TunerImpl \<Rightarrow> error + 's" where
  "new_searcher w kernel_info st =
     (if length (search_args st) < num_search_args (search_method st)
      then Inl UndefinedBehaviour
      else Inr (NewSearcher (searcher w) (search_method st) (configurations kernel_info)
                  (parameters kernel_info)
                  (take (num_search_args (search_method st)) (search_args st))))"

text \<open>The body of the loop over \<open>kernels_\<close>, for the \<open>k\<close>-th kernel.\<close>

definition tune_kernel ::
  "('r, 's, 'm) world \<Rightarrow> nat \<Rightarrow> 'r TunerImpl \<Rightarrow> ((error + unit) \<times> 'r TunerImpl) option" where
  "tune_kernel w k st =
     (if length (parameters (kernels st ! k)) = 0 then
        Some (bind_exn (RunKernel w (source (kernels st ! k)) (kernels st ! k) (TunedKernel k) 0 1)
                (\<lambda>tuning_result.
              bind_exn (VerifyOutput w) (\<lambda>verified.
              store_result (tuning_result\<lparr>status := verified\<rparr>))) st)
      else
        (case of_reply (SetConfigurations (kernel_ops w) (kernels st ! k)) of
           Inl e \<Rightarrow> Some (Inl e, st)
         | Inr all_configurations \<Rightarrow>
             (let st1 = st\<lparr>kernels :=
                          (kernels st)[k := (kernels st ! k)
                                              \<lparr>configurations := all_configurations\<rparr>]\<rparr>
              in case new_searcher w (kernels st1 ! k) st1 of
                   Inl e \<Rightarrow> Some (Inl e, st1)
                 | Inr search \<Rightarrow>
                     (case tune_loop w k 0 search st1 of
                        None \<Rightarrow> None
                      | Some (Inl e, st') \<Rightarrow> Some (Inl e, st')
                      | Some (Inr _, st') \<Rightarrow> Some (Inr (), st')))))"

fun tune_kernels ::
  "('r, 's, 'm) world \<Rightarrow> nat list \<Rightarrow> 'r TunerImpl \<Rightarrow>
   ((error + unit) \<times> 'r TunerImpl) option" where
  "tune_kernels w [] st = Some (Inr (), st)"
| "tune_kernels w (k # ks) st =
     (case tune_kernel w k st of
        None \<Rightarrow> None
      | Some (Inl e, st') \<Rightarrow> Some (Inl e, st')
      | Some (Inr _, st') \<Rightarrow> tune_kernels w ks st')"

text \<open>The reference run at the start of \<open>Tune\<close>.\<close>

definition run_reference :: "('r, 's, 'm) world \<Rightarrow> (unit, 'r TunerImpl) exn" where
  "run_reference w st =
     (if has_reference st then
        bind_exn (RunKernel w (source (reference_kernel st)) (reference_kernel st)
                    ReferenceKernel 0 1)
          (\<lambda>_. StoreReferenceOutput w) st
      else return_exn () st)"

definition Tune ::
  "('r, 's, 'm) world \<Rightarrow> 'r TunerImpl \<Rightarrow> ((error + unit) \<times> 'r TunerImpl) option" where
  "Tune w st =
     (case run_reference w st of
        (Inl e, st') \<Rightarrow> Some (Inl e, st')
      | (Inr _, st') \<Rightarrow> tune_kernels w [0..<length (kernels st')] st')"

subsection \<open>ModelPrediction\<close>

text \<open>
  The number of validation samples: the local \<open>validation_fraction = 0.20f\<close> hides the
  parameter of the same name, which is therefore not read.
  \<open>tuning_results_.size() * validation_fraction\<close> is a \<open>float\<close> product.
\<close>

definition validation_samples_of :: "fpval \<Rightarrow> nat \<Rightarrow> error + size_t" where
  "validation_samples_of validation_fraction num_results =
     (let validation_fraction_local = round_float (1 / 5)
      in to_size_t (fmul round_float (round_float (real num_results))
                      validation_fraction_local))"

text \<open>\<open>static_cast<float>(setting.value)\<close> for the first \<open>features\<close> settings of a result.\<close>

definition feature_vector :: "nat \<Rightarrow> Configuration \<Rightarrow> error + fpval list" where
  "feature_vector features config =
     (if length config < features then Inl UndefinedBehaviour
      else Inr (map (\<lambda>setting. round_float (real (unat (setting_value setting))))
                  (take features config)))"

fun feature_rows :: "nat \<Rightarrow> TunerResult list \<Rightarrow> error + fpval list list" where
  "feature_rows features [] = Inr []"
| "feature_rows features (r # rs) =
     (case feature_vector features (configuration r) of
        Inl e \<Rightarrow> Inl e
      | Inr row \<Rightarrow>
          (case feature_rows features rs of
             Inl e \<Rightarrow> Inl e
           | Inr rows \<Rightarrow> Inr (row # rows)))"

text \<open>
  The training and validation data: \<open>(x_train, y_train)\<close> and \<open>(x_validation, y_validation)\<close>.
\<close>

definition split_samples ::
  "fpval \<Rightarrow> TunerResult list \<Rightarrow>
   error + ((fpval list list \<times> fpval list) \<times> (fpval list list \<times> fpval list))" where
  "split_samples validation_fraction results =
     (case validation_samples_of validation_fraction (length results) of
        Inl e \<Rightarrow> Inl e
      | Inr validation_samples \<Rightarrow>
          (let training_samples = length results - unat validation_samples
           in case results of
                [] \<Rightarrow> Inl UndefinedBehaviour
              | first # _ \<Rightarrow>
                  (let features = length (configuration first);
                       training = take training_samples results;
                       validation = take (unat validation_samples)
                                      (drop training_samples results)
                   in case feature_rows features training of
                        Inl e \<Rightarrow> Inl e
                      | Inr x_train \<Rightarrow>
                          (case feature_rows features validation of
                             Inl e \<Rightarrow> Inl e
                           | Inr x_validation \<Rightarrow>
                               Inr ((x_train, map time training),
                                    (x_validation, map time validation))))))"

text \<open>The predictions \<open>model_results\<close>: one pair \<open>(p, predicted_time)\<close> per configuration.\<close>

definition predict_all ::
  "('r, 's, 'm) world \<Rightarrow> 'm \<Rightarrow> Configuration list \<Rightarrow> (nat \<times> fpval) list" where
  "predict_all w trained all_configurations =
     map (\<lambda>(p, permutation).
            (p, Predict (model w) trained
                  (map (\<lambda>setting. round_float (real (unat (setting_value setting))))
                     permutation)))
       (zip [0..<length all_configurations] all_configurations)"

text \<open>One iteration of the loop that tests the best-predicted configurations.\<close>

definition test_prediction ::
  "('r, 's, 'm) world \<Rightarrow> nat \<Rightarrow> nat \<Rightarrow> nat \<times> fpval \<Rightarrow> (unit, 'r TunerImpl) exn" where
  "test_prediction w k test_top_x_configurations result st =
     (let p = fst result; permutations = configurations (kernels st ! k)
      in if length permutations \<le> p then (Inl UndefinedBehaviour, st)
         else bind_exn
                (measure_configuration w k (permutations ! p) p test_top_x_configurations)
                (\<lambda>tuning_result.
                   let stored = tuning_result\<lparr>configuration := permutations ! p\<rparr>
                   in bind_exn (store_result stored) (\<lambda>_. report_result stored)) st)"

text \<open>The body of the loop over \<open>kernels_\<close> in \<open>ModelPrediction\<close>, for the \<open>k\<close>-th kernel.\<close>

definition predict_kernel ::
  "('r, 's, 'm) world \<Rightarrow> Model \<Rightarrow> fpval \<Rightarrow> nat \<Rightarrow> nat \<Rightarrow> (unit, 'r TunerImpl) exn" where
  "predict_kernel w model_type validation_fraction test_top_x_configurations k st =
     (case split_samples validation_fraction (tuning_results st) of
        Inl e \<Rightarrow> (Inl e, st)
      | Inr samples \<Rightarrow>
          (if model_type = kLinearRegression then
             (let trained = Train (model w) (fst (fst samples)) (snd (fst samples));
                  model_results = predict_all w trained (configurations (kernels st ! k));
                  ranking = std_sort (model w) model_results
              in foreach_exn (test_prediction w k test_top_x_configurations)
                   (take test_top_x_configurations ranking) st)
           else (Inl (RuntimeError ''Unknown machine learning model''), st)))"

definition ModelPrediction ::
  "('r, 's, 'm) world \<Rightarrow> Model \<Rightarrow> fpval \<Rightarrow> nat \<Rightarrow> (unit, 'r TunerImpl) exn" where
  "ModelPrediction w model_type validation_fraction test_top_x_configurations st =
     foreach_exn (predict_kernel w model_type validation_fraction test_top_x_configurations)
       [0..<length (kernels st)] st"

subsection \<open>Notions used to state the properties\<close>


text \<open>The norms that \<open>DownloadAndCompare\<close> reported as differing, as they appear in a log.\<close>

fun reported_differences :: "event list \<Rightarrow> fpval list" where
  "reported_differences [] = []"
| "reported_differences (PrintResultsDiffer l2_norm # es) = l2_norm # reported_differences es"
| "reported_differences (e # es) = reported_differences es"

text \<open>A floating-point value that is not below zero: NaN counts, minus infinity does not.\<close>

fun not_negative :: "fpval \<Rightarrow> bool" where
  "not_negative (Fin x) = (0 \<le> x)"
| "not_negative PInf = True"
| "not_negative NaN = True"
| "not_negative NInf = False"

text \<open>
  The norm of the specification, written from its words and not from the code.
  \<open>abs_difference x y\<close> is \<open>|x - y|\<close> in \<open>double\<close>: the rounded absolute difference of two
  finite values, NaN when a value is NaN or both are the same infinity, and infinity
  otherwise.
\<close>

fun abs_difference :: "fpval \<Rightarrow> fpval \<Rightarrow> fpval" where
  "abs_difference (Fin x) (Fin y) = round_double \<bar>x - y\<bar>"
| "abs_difference NaN _ = NaN"
| "abs_difference _ NaN = NaN"
| "abs_difference PInf PInf = NaN"
| "abs_difference NInf NInf = NaN"
| "abs_difference _ _ = PInf"

text \<open>
  What one element contributes: \<open>|ref - cand|\<close> of the two values widened to \<open>double\<close> (an
  \<open>int\<close> and a \<open>float\<close> widen exactly, a \<open>size_t\<close> is rounded), and
  \<open>|\<Delta>real| + |\<Delta>imag|\<close> for the complex types.
\<close>

fun element_distance :: "'r Cells \<Rightarrow> MemType \<Rightarrow> 'r \<Rightarrow> 'r \<Rightarrow> fpval" where
  "element_distance c kInt r x =
     abs_difference (Fin (real_of_int (sint (as_int c r)))) (Fin (real_of_int (sint (as_int c x))))"
| "element_distance c kSizeT r x =
     abs_difference (round_double (real (unat (as_size_t c r))))
       (round_double (real (unat (as_size_t c x))))"
| "element_distance c kFloat r x = abs_difference (as_float c r) (as_float c x)"
| "element_distance c kDouble r x = abs_difference (as_double c r) (as_double c x)"
| "element_distance c kFloat2 r x =
     fadd round_double
       (abs_difference (fst (as_float2 c r)) (fst (as_float2 c x)))
       (abs_difference (snd (as_float2 c r)) (snd (as_float2 c x)))"
| "element_distance c kDouble2 r x =
     fadd round_double
       (abs_difference (fst (as_double2 c r)) (fst (as_double2 c x)))
       (abs_difference (snd (as_double2 c r)) (snd (as_double2 c x)))"
| "element_distance c kUnsupported r x = NaN"

text \<open>
  The norm \<open>L2\<close>: the sum over the elements, in order, of what each contributes, added
  up in \<open>double\<close>.
\<close>

definition L2_norm :: "'r Cells \<Rightarrow> MemType \<Rightarrow> 'r list \<Rightarrow> 'r list \<Rightarrow> fpval" where
  "L2_norm c T reference candidate =
     foldl (fadd round_double) (Fin 0) (map2 (element_distance c T) reference candidate)"

text \<open>A norm that is finite and at most the threshold.\<close>

fun within_threshold :: "real \<Rightarrow> fpval \<Rightarrow> bool" where
  "within_threshold eps (Fin x) = (x \<le> eps)"
| "within_threshold eps _ = False"

text \<open>What the comparison of buffer \<open>b\<close>, the \<open>k\<close>-th output, with norm \<open>l2\<close> logs.\<close>

definition compare_events :: "real \<Rightarrow> MemArgument \<Rightarrow> nat \<Rightarrow> fpval \<Rightarrow> event list" where
  "compare_events eps b k l2 =
     [EnterDownloadAndCompare (buffer b) k, CallRead (buffer b)] @
     (if within_threshold eps l2 then [] else [PrintResultsDiffer l2])"

text \<open>
  \<open>compared w eps snapshot outputs k h norms\<close>: starting with the \<open>k\<close>-th output buffer and
  the log \<open>h\<close>, the device answered the read of every buffer of \<open>outputs\<close> in turn, and
  \<open>norms\<close> lists, buffer by buffer, the norm between the \<open>k\<close>-th array of the snapshot and
  the cells read from the \<open>k\<close>-th buffer (an array longer than the buffer counts up to the
  size of the buffer).
\<close>

fun compared ::
  "('r, 's, 'm) world \<Rightarrow> real \<Rightarrow> 'r list list \<Rightarrow> MemArgument list \<Rightarrow> nat \<Rightarrow> event list \<Rightarrow>
   fpval list \<Rightarrow> bool" where
  "compared w eps snapshot [] k h norms = (norms = [])"
| "compared w eps snapshot (b # bs) k h [] = False"
| "compared w eps snapshot (b # bs) k h (l2 # norms) =
     (case Read (cl w) (h @ [EnterDownloadAndCompare (buffer b) k]) b of
        Throws msg \<Rightarrow> False
      | Returns host \<Rightarrow>
          l2 = L2_norm (cells w) (type b) (snapshot ! k) (map host [0..<size_mem b]) \<and>
          compared w eps snapshot bs (k + 1) (h @ compare_events eps b k l2) norms)"

text \<open>A snapshot that has, for every output buffer, an array of at least its size.\<close>

definition snapshot_covers :: "'r TunerImpl \<Rightarrow> bool" where
  "snapshot_covers st \<longleftrightarrow>
     list_all2 (\<lambda>b reference_output. size_mem b \<le> length reference_output)
       (arguments_output st) (reference_outputs st)"

text \<open>The kinds of events.\<close>

fun is_compare :: "event \<Rightarrow> bool" where
  "is_compare (EnterDownloadAndCompare b i) = True"
| "is_compare _ = False"


fun is_time :: "event \<Rightarrow> bool" where
  "is_time (CallGetElapsedTime t v) = True"
| "is_time _ = False"

fun is_run :: "event \<Rightarrow> bool" where
  "is_run (EnterRunKernel kref configuration_id num_configurations) = True"
| "is_run _ = False"

fun is_build :: "event \<Rightarrow> bool" where
  "is_build (CallBuild s) = True"
| "is_build _ = False"

fun is_device_call :: "event \<Rightarrow> bool" where
  "is_device_call (CallBuild s) = True"
| "is_device_call CallGetBuildInfo = True"
| "is_device_call (CallWrite b) = True"
| "is_device_call (CallCreateKernel n) = True"
| "is_device_call (CallSetArgument i) = True"
| "is_device_call CallLocalMemUsage = True"
| "is_device_call CallFinish = True"
| "is_device_call (CallLaunch g l) = True"
| "is_device_call (CallGetElapsedTime t v) = True"
| "is_device_call _ = False"

fun is_verification :: "event \<Rightarrow> bool" where
  "is_verification (EnterDownloadAndCompare b i) = True"
| "is_verification (CallRead b) = True"
| "is_verification (PrintResultsDiffer l2_norm) = True"
| "is_verification _ = False"

fun is_snapshot :: "event \<Rightarrow> bool" where
  "is_snapshot (EnterDownloadReference b) = True"
| "is_snapshot (CallRead b) = True"
| "is_snapshot _ = False"

fun is_tuning :: "event \<Rightarrow> bool" where
  "is_tuning (EnterRunKernel ReferenceKernel configuration_id num_configurations) = False"
| "is_tuning (EnterDownloadReference b) = False"
| "is_tuning _ = True"

text \<open>A statement that never runs into undefined behaviour.\<close>

definition never_undefined :: "('a, 'st) exn \<Rightarrow> bool" where
  "never_undefined m \<longleftrightarrow> (\<forall>st. fst (m st) \<noteq> Inl UndefinedBehaviour)"

text \<open>What a statement appended to the log.\<close>

definition new_calls :: "'r TunerImpl \<Rightarrow> 'r TunerImpl \<Rightarrow> event list" where
  "new_calls st st' = drop (length (calls st)) (calls st')"

definition new_results :: "'r TunerImpl \<Rightarrow> 'r TunerImpl \<Rightarrow> TunerResult list" where
  "new_results st st' = drop (length (tuning_results st)) (tuning_results st')"

text \<open>
  A statement that touches nothing but the log, and appends to it only events that
  satisfy \<open>Q\<close>.
\<close>

definition emits :: "(event \<Rightarrow> bool) \<Rightarrow> ('a, 'r TunerImpl) exn \<Rightarrow> bool" where
  "emits Q m \<longleftrightarrow>
     (\<forall>st r st'. m st = (r, st') \<longrightarrow>
        (\<exists>es. st' = st\<lparr>calls := calls st @ es\<rparr> \<and> list_all Q es))"

text \<open>
  A searcher whose number of configurations stays the same when it is given a time and
  moves to its next configuration.
\<close>

definition steady_searcher :: "('r, 's, 'm) world \<Rightarrow> bool" where
  "steady_searcher w \<longleftrightarrow>
     (\<forall>t s. NumConfigurations (searcher w)
              (CalculateNextIndex (searcher w) (PushExecutionTime (searcher w) t s)) =
            NumConfigurations (searcher w) s)"

text \<open>
  How the state moves while kernels are tuned: the reference flag, the output arguments,
  the snapshot, the search settings and the number of kernels stay as they are, the log
  grows by events that satisfy \<open>Q\<close>, and the results grow by results that satisfy \<open>P\<close>.
\<close>

definition advances ::
  "(event \<Rightarrow> bool) \<Rightarrow> (TunerResult \<Rightarrow> bool) \<Rightarrow> 'r TunerImpl \<Rightarrow> 'r TunerImpl \<Rightarrow> bool" where
  "advances Q P st st' \<longleftrightarrow>
     has_reference st' = has_reference st \<and>
     arguments_output st' = arguments_output st \<and>
     reference_outputs st' = reference_outputs st \<and>
     search_method st' = search_method st \<and>
     search_args st' = search_args st \<and>
     length (kernels st') = length (kernels st) \<and>
     (\<exists>es. calls st' = calls st @ es \<and> list_all Q es) \<and>
     (\<exists>rs. tuning_results st' = tuning_results st @ rs \<and> list_all P rs)"

subsection \<open>A scripted device and a full search, for the examples\<close>

text \<open>
  A device whose builds, profiling counters and buffer reads are scripted and whose other
  calls succeed. Its cells are \<open>double\<close> values.
\<close>

definition scripted_cl ::
  "(event list \<Rightarrow> string \<Rightarrow> BuildStatus reply) \<Rightarrow> (nat \<Rightarrow> size_t \<times> size_t) \<Rightarrow>
   (event list \<Rightarrow> MemArgument \<Rightarrow> (nat \<Rightarrow> fpval) reply) \<Rightarrow> fpval OpenCL" where
  "scripted_cl build counters read =
     \<lparr> Build = build,
       GetBuildInfo = (\<lambda>h. Returns ''build log''),
       Write = (\<lambda>h b. Returns ()),
       CreateKernel = (\<lambda>h n. Returns ()),
       SetArgument = (\<lambda>h i. Returns ()),
       LocalMemUsage = (\<lambda>h. Returns 0),
       Finish = (\<lambda>h. Returns ()),
       Launch = (\<lambda>h g l. Returns ()),
       Profile = (\<lambda>h t. Returns (counters t)),
       Read = read \<rparr>"

definition double_cells :: "fpval Cells" where
  "double_cells =
     \<lparr> as_int = (\<lambda>x. 0), as_size_t = (\<lambda>x. 0), as_float = (\<lambda>x. x), as_double = (\<lambda>x. x),
       as_float2 = (\<lambda>x. (x, Fin 0)), as_double2 = (\<lambda>x. (x, Fin 0)) \<rparr>"

text \<open>A searcher that visits the configurations in order: the list and the current index.\<close>

definition full_search :: "(Configuration list \<times> nat) SearcherOps" where
  "full_search =
     \<lparr> NewSearcher = (\<lambda>method all_configurations params args. (all_configurations, 0)),
       NumConfigurations = (\<lambda>s. length (fst s)),
       GetConfiguration = (\<lambda>s. if snd s < length (fst s) then fst s ! snd s else []),
       PushExecutionTime = (\<lambda>t s. s),
       CalculateNextIndex = (\<lambda>s. (fst s, snd s + 1)) \<rparr>"

text \<open>
  Kernel operations that enumerate one configuration per value of the first parameter and
  leave the ranges as they are.
\<close>

definition plain_kernel_ops :: KernelOps where
  "plain_kernel_ops =
     \<lparr> GetDefine = (\<lambda>setting. ''#define '' @ setting_name setting @ ''; ''),
       SetConfigurations =
         (\<lambda>k. Returns
                (case parameters k of
                   [] \<Rightarrow> []
                 | p # _ \<Rightarrow>
                     map (\<lambda>v. [\<lparr> setting_name = parameter_name p, setting_value = v \<rparr>])
                       (parameter_values p))),
       ComputeRanges = (\<lambda>k permutation. Returns (global k, local k)) \<rparr>"

text \<open>Insertion sort by predicted time, one of the orders \<open>std::sort\<close> may produce.\<close>

fun insert_by_time :: "nat \<times> fpval \<Rightarrow> (nat \<times> fpval) list \<Rightarrow> (nat \<times> fpval) list" where
  "insert_by_time x [] = [x]"
| "insert_by_time x (y # ys) =
     (if fless (snd y) (snd x) then y # insert_by_time x ys else x # y # ys)"

definition sort_by_time :: "(nat \<times> fpval) list \<Rightarrow> (nat \<times> fpval) list" where
  "sort_by_time xs = foldr insert_by_time xs []"

text \<open>A model that predicts the value of the first setting.\<close>

definition first_feature_model :: "unit ModelOps" where
  "first_feature_model =
     \<lparr> Train = (\<lambda>x y. ()),
       Predict = (\<lambda>m x. case x of [] \<Rightarrow> Fin 0 | v # _ \<Rightarrow> v),
       std_sort = sort_by_time \<rparr>"

definition scripted_world ::
  "nat \<Rightarrow> fpval OpenCL \<Rightarrow> (fpval, Configuration list \<times> nat, unit) world" where
  "scripted_world runs opencl =
     \<lparr> kNumRuns = runs,
       kMaxL2Norm = Fin (1 / 10000),
       device = \<lparr> MaxWorkGroupSize = Returns 1024, MaxWorkItemDimensions = Returns 3,
                  MaxWorkItemSizes = Returns [1024, 1024, 64], LocalMemSize = Returns 49152 \<rparr>,
       cl = opencl,
       cells = double_cells,
       kernel_ops = plain_kernel_ops,
       searcher = full_search,
       model = first_feature_model \<rparr>"

definition plain_kernel :: "string \<Rightarrow> Parameter list \<Rightarrow> KernelInfo" where
  "plain_kernel entry params =
     \<lparr> name = entry, source = ''kernel void '' @ entry, parameters = params,
       configurations = [], global = [64], local = [8] \<rparr>"

definition initial_state ::
  "bool \<Rightarrow> KernelInfo list \<Rightarrow> MemArgument list \<Rightarrow> fpval TunerImpl" where
  "initial_state with_reference tunable outputs =
     \<lparr> has_reference = with_reference,
       reference_kernel = plain_kernel ''reference'' [],
       kernels = tunable,
       arguments_input = [],
       arguments_output = outputs,
       arguments_int = [], arguments_size_t = [], arguments_float = [],
       arguments_double = [], arguments_float2 = [], arguments_double2 = [],
       search_method = FullSearch,
       search_args = [],
       reference_outputs = [],
       tuning_results = [],
       calls = [] \<rparr>"

text \<open>Scripts: every build succeeds; launch \<open>t\<close> takes 5, 2 and 7 milliseconds.\<close>

definition builds_fine :: "event list \<Rightarrow> string \<Rightarrow> BuildStatus reply" where
  "builds_fine h s = Returns kSuccess"

definition counters_527 :: "nat \<Rightarrow> size_t \<times> size_t" where
  "counters_527 t = (if t = 0 then (1000, 5001000) else if t = 1 then (0, 2000000) else (500, 7000500))"

definition reads_zero :: "event list \<Rightarrow> MemArgument \<Rightarrow> (nat \<Rightarrow> fpval) reply" where
  "reads_zero h b = Returns (\<lambda>j. Fin 0)"

text \<open>
  Three output buffers of two \<open>double\<close> cells each, a snapshot of zeroes for them, and a
  device on which the first buffer reads back as zeroes, the second with a one in its
  first cell, and the third as NaN.
\<close>

definition double_buffer :: "nat \<Rightarrow> MemArgument" where
  "double_buffer n = \<lparr> index = n, size_mem = 2, type = kDouble, buffer = n \<rparr>"

definition three_outputs_state :: "fpval TunerImpl" where
  "three_outputs_state =
     (initial_state True [] [double_buffer 0, double_buffer 1, double_buffer 2])
       \<lparr>reference_outputs := [[Fin 0, Fin 0], [Fin 0, Fin 0], [Fin 0, Fin 0]]\<rparr>"

definition reads_three :: "event list \<Rightarrow> MemArgument \<Rightarrow> (nat \<Rightarrow> fpval) reply" where
  "reads_three h b =
     Returns (\<lambda>j. if buffer b = 0 then Fin 0
                  else if buffer b = 1 then (if j = 0 then Fin 1 else Fin 0)
                  else NaN)"

text \<open>
  A session with a reference, one kernel without parameters and one output buffer; and
  a device whose reads succeed until the first comparison has begun and fail from then
  on.
\<close>

definition plain_session :: "fpval TunerImpl" where
  "plain_session = initial_state True [plain_kernel ''k'' []] [double_buffer 0]"

definition reads_fail_in_verification ::
  "event list \<Rightarrow> MemArgument \<Rightarrow> (nat \<Rightarrow> fpval) reply" where
  "reads_fail_in_verification h b =
     (if list_ex is_compare h then Throws ''Internal OpenCL error'' else Returns (\<lambda>j. Fin 0))"

text \<open>A kernel with one parameter of two values, hence two configurations.\<close>

definition wpt_kernel :: KernelInfo where
  "wpt_kernel =
     plain_kernel ''k'' [\<lparr> parameter_name = ''WPT'', parameter_values = [1, 2] \<rparr>]"

section \<open>Properties\<close>

subsection \<open>The thread-configuration check\<close>

lemma work_item_loop_True:
  assumes "MaxWorkItemSizes dev = Returns sizes"
  shows "work_item_loop dev shape is = Inr True \<longleftrightarrow>
         (\<forall>i\<in>set is. shape ! i \<le> sizes ! i)"
  using assms by (induction "is") (auto simp: not_less)

lemma unat_foldl_times:
  "unat (foldl (*) (a::size_t) xs) = (unat a * prod_list (map unat xs)) mod 2 ^ 64"
proof (induction xs arbitrary: a)
  case Nil
  show ?case using unsigned_less [of a, where 'a=nat] by simp
next
  case (Cons x xs)
  show ?case
    by (simp add: Cons.IH unat_word_ariths mod_mult_left_eq mult.assoc)
qed

text \<open>
  Claim C9, as the code has it. When the three device queries succeed, the shape has no
  more axes than the device reports per-axis maxima, and the product of the axes fits
  in a \<open>size_t\<close>, \<open>IsThreadConfigValid\<close> accepts a local shape exactly when every axis is
  at most the device maximum on that axis, the product of the axes is at most the
  maximum work-group size, and the number of axes is at most the maximum number of
  work-item dimensions.
\<close>

theorem thread_config_valid_iff:
  assumes "MaxWorkItemSizes dev = Returns sizes"
    and "MaxWorkGroupSize dev = Returns wg"
    and "MaxWorkItemDimensions dev = Returns dims"
    and "length shape \<le> length sizes"
    and "prod_list (map unat shape) < 2 ^ 64"
  shows "IsThreadConfigValid dev shape = Inr True \<longleftrightarrow>
         (\<forall>i<length shape. shape ! i \<le> sizes ! i) \<and>
         prod_list (map unat shape) \<le> unat wg \<and>
         length shape \<le> unat dims"
proof -
  have p: "unat (foldl (*) 1 shape) = prod_list (map unat shape)"
    using assms(5) by (simp add: unat_foldl_times)
  show ?thesis
    using assms(1-3) work_item_loop_True[OF assms(1), of shape "[0..<length shape]"]
    by (auto simp: IsThreadConfigValid_def Let_def p word_less_nat_alt not_less
             split: sum.splits bool.splits)
qed

theorem thread_config_valid_iff_witness:
  "length [8, 8 :: size_t] \<le> length [1024, 1024, 64 :: size_t] \<and>
   prod_list (map unat [8, 8 :: size_t]) < 2 ^ 64 \<and>
   IsThreadConfigValid
     \<lparr> MaxWorkGroupSize = Returns 1024, MaxWorkItemDimensions = Returns 3,
       MaxWorkItemSizes = Returns [1024, 1024, 64], LocalMemSize = Returns 49152 \<rparr> [8, 8] = Inr True"
  using thread_config_valid_iff [of
      "\<lparr> MaxWorkGroupSize = Returns 1024, MaxWorkItemDimensions = Returns 3,
         MaxWorkItemSizes = Returns [1024, 1024, 64], LocalMemSize = Returns 49152 \<rparr>"
      "[1024, 1024, 64]" 1024 3 "[8, 8]"]
  by (simp add: nth_Cons' less_Suc_eq all_conj_distrib)

text \<open>
  Claim C9 as stated fails where the product of the axes does not fit in a \<open>size_t\<close>:
  on a device whose per-axis maximum is \<open>2 ^ 32\<close> and whose maximum work-group size is 1,
  the shape \<open>(2 ^ 32, 2 ^ 32)\<close> is accepted, because \<open>local_size\<close> wraps to 0, although
  the product of its axes is \<open>2 ^ 64\<close>.
\<close>

theorem thread_config_product_wraps:
  "IsThreadConfigValid
     \<lparr> MaxWorkGroupSize = Returns 1, MaxWorkItemDimensions = Returns 2,
       MaxWorkItemSizes = Returns [4294967296, 4294967296], LocalMemSize = Returns 0 \<rparr>
     [4294967296, 4294967296] = Inr True \<and>
   \<not> prod_list (map unat [4294967296, 4294967296 :: size_t]) \<le> unat (1 :: size_t)"
  by (simp add: IsThreadConfigValid_def word_less_nat_alt word_le_nat_alt)

subsection \<open>Statements and the log\<close>

lemma emitsI:
  assumes "\<And>st r st'. m st = (r, st') \<Longrightarrow> \<exists>es. st' = st\<lparr>calls := calls st @ es\<rparr> \<and> list_all Q es"
  shows "emits Q m"
  using assms unfolding emits_def by blast

lemma emitsD:
  assumes "emits Q m" "m st = (r, st')"
  obtains es where "st' = st\<lparr>calls := calls st @ es\<rparr>" "list_all Q es"
  using assms unfolding emits_def by blast

lemma emits_nothing:
  assumes "\<And>st. snd (m st) = st"
  shows "emits Q m"
proof (rule emitsI)
  fix st r st' assume "m st = (r, st' :: 'a TunerImpl)"
  with assms[of st] have "st' = st\<lparr>calls := calls st @ []\<rparr>" by simp
  then show "\<exists>es. st' = st\<lparr>calls := calls st @ es\<rparr> \<and> list_all Q es"
    by (intro exI[of _ "[]"]) simp
qed

lemma emits_one:
  assumes "Q ev" "\<And>st. snd (m st) = st\<lparr>calls := calls st @ [ev]\<rparr>"
  shows "emits Q m"
proof (rule emitsI)
  fix st r st' assume "m st = (r, st' :: 'a TunerImpl)"
  with assms(2)[of st] have "st' = st\<lparr>calls := calls st @ [ev]\<rparr>" by simp
  with assms(1) show "\<exists>es. st' = st\<lparr>calls := calls st @ es\<rparr> \<and> list_all Q es"
    by (intro exI[of _ "[ev]"]) simp
qed

lemma emits_return: "emits Q (return_exn x)"
  by (rule emits_nothing) (simp add: return_exn_def)

lemma emits_throw: "emits Q (throw_exn e)"
  by (rule emits_nothing) (simp add: throw_exn_def)

lemma emits_lift: "emits Q (lift_exn r)"
  by (rule emits_nothing) (simp add: lift_exn_def)

lemma emits_call: "Q ev \<Longrightarrow> emits Q (call ev answer)"
  by (rule emits_one[of _ ev]) (simp_all add: call_def)

lemma emits_log_event: "Q ev \<Longrightarrow> emits Q (log_event ev)"
  by (rule emits_one[of _ ev]) (simp_all add: log_event_def)

lemma emits_bind:
  assumes "emits Q m" and "\<And>x. emits Q (f x)"
  shows "emits Q (bind_exn m f)"
proof (rule emitsI)
  fix st r and st' :: "'a TunerImpl"
  assume run: "bind_exn m f st = (r, st')"
  obtain r1 st1 where m: "m st = (r1, st1)" by (cases "m st")
  from assms(1) m obtain es1 where st1: "st1 = st\<lparr>calls := calls st @ es1\<rparr>" and q1: "list_all Q es1"
    by (rule emitsD)
  show "\<exists>es. st' = st\<lparr>calls := calls st @ es\<rparr> \<and> list_all Q es"
  proof (cases r1)
    case (Inl e)
    with run m have "st' = st1" by (simp add: bind_exn_def)
    with st1 q1 show ?thesis by blast
  next
    case (Inr x)
    with run m have fx: "f x st1 = (r, st')" by (simp add: bind_exn_def)
    from assms(2)[of x] fx obtain es2 where st2: "st' = st1\<lparr>calls := calls st1 @ es2\<rparr>" and q2: "list_all Q es2"
      by (rule emitsD)
    from st1 st2 have "st' = st\<lparr>calls := calls st @ (es1 @ es2)\<rparr>" by simp
    moreover from q1 q2 have "list_all Q (es1 @ es2)" by simp
    ultimately show ?thesis by blast
  qed
qed

lemma emits_foreach:
  assumes "\<And>x. x \<in> set xs \<Longrightarrow> emits Q (f x)"
  shows "emits Q (foreach_exn f xs)"
  using assms
proof (induction xs)
  case Nil
  show ?case by (simp add: emits_return)
next
  case (Cons x xs)
  show ?case by (simp, rule emits_bind) (simp_all add: Cons)
qed

lemma emits_state:
  assumes "\<And>st0. emits Q (m st0)"
  shows "emits Q (\<lambda>st. m st st)"
  using assms unfolding emits_def by blast

lemma emits_weaken:
  assumes "emits Q m" "\<And>e. Q e \<Longrightarrow> Q' e"
  shows "emits Q' m"
proof (rule emitsI)
  fix st r and st' :: "'a TunerImpl"
  assume "m st = (r, st')"
  with assms(1) obtain es where "st' = st\<lparr>calls := calls st @ es\<rparr>" "list_all Q es"
    by (rule emitsD)
  moreover from this(2) assms(2) have "list_all Q' es" by (simp add: list_all_iff)
  ultimately show "\<exists>es. st' = st\<lparr>calls := calls st @ es\<rparr> \<and> list_all Q' es" by blast
qed

lemma never_undefined_return: "never_undefined (return_exn x)"
  by (simp add: never_undefined_def return_exn_def)

lemma never_undefined_throw: "never_undefined (throw_exn (RuntimeError msg))"
  by (simp add: never_undefined_def throw_exn_def)

lemma of_reply_defined: "of_reply r \<noteq> Inl UndefinedBehaviour"
  by (cases r) simp_all

lemma never_undefined_call: "never_undefined (call ev answer)"
  by (simp add: never_undefined_def call_def of_reply_defined)

lemma never_undefined_bind:
  assumes "never_undefined m" "\<And>x. never_undefined (f x)"
  shows "never_undefined (bind_exn m f)"
  unfolding never_undefined_def
proof
  fix st
  obtain r st1 where m: "m st = (r, st1)" by (cases "m st")
  with assms(1) have r: "r \<noteq> Inl UndefinedBehaviour"
    unfolding never_undefined_def by (metis fst_conv)
  show "fst (bind_exn m f st) \<noteq> Inl UndefinedBehaviour"
  proof (cases r)
    case (Inl e)
    with m r show ?thesis by (simp add: bind_exn_def)
  next
    case (Inr x)
    with m assms(2)[of x] show ?thesis by (simp add: bind_exn_def never_undefined_def)
  qed
qed

lemma never_undefined_foreach:
  assumes "\<And>x. x \<in> set xs \<Longrightarrow> never_undefined (f x)"
  shows "never_undefined (foreach_exn f xs)"
  using assms
proof (induction xs)
  case Nil
  show ?case by (simp add: never_undefined_return)
next
  case (Cons x xs)
  show ?case by (simp, rule never_undefined_bind) (simp_all add: Cons)
qed

lemma never_undefined_state:
  assumes "\<And>st0. never_undefined (m st0)"
  shows "never_undefined (\<lambda>st. m st st)"
  using assms unfolding never_undefined_def by blast

lemma never_undefined_lift: "r \<noteq> Inl UndefinedBehaviour \<Longrightarrow> never_undefined (lift_exn r)"
  by (simp add: never_undefined_def lift_exn_def)

lemma IsLocalMemoryValid_defined: "IsLocalMemoryValid dev usage \<noteq> Inl UndefinedBehaviour"
  by (cases "LocalMemSize dev") (simp_all add: IsLocalMemoryValid_def)

lemma never_undefined_GetElapsedTime: "never_undefined (GetElapsedTime w t)"
  by (simp add: never_undefined_def GetElapsedTime_def Let_def of_reply_defined)

lemma never_undefined_timing_loop: "never_undefined (timing_loop w ts acc)"
proof (induction ts arbitrary: acc)
  case Nil
  show ?case by (simp add: never_undefined_return)
next
  case (Cons t ts)
  show ?case by (simp, rule never_undefined_bind) (simp_all add: never_undefined_GetElapsedTime Cons)
qed

lemma never_undefined_if:
  "(c \<Longrightarrow> never_undefined a) \<Longrightarrow> (\<not> c \<Longrightarrow> never_undefined b) \<Longrightarrow>
   never_undefined (if c then a else b)"
  by simp

lemmas never_undefined_intros = never_undefined_if
  never_undefined_bind never_undefined_return never_undefined_throw never_undefined_call
  never_undefined_foreach never_undefined_lift never_undefined_timing_loop
  IsLocalMemoryValid_defined

lemma never_undefined_reset_outputs: "never_undefined (reset_outputs w)"
  unfolding reset_outputs_def
  by (rule never_undefined_state, rule never_undefined_foreach)
     (auto simp: ResetMemArgument_def split: MemType.split intro: never_undefined_intros)

lemma never_undefined_set_arguments: "never_undefined (set_arguments w)"
  unfolding set_arguments_def
  by (rule never_undefined_state, rule never_undefined_foreach) (rule never_undefined_call)

lemma never_undefined_launch_loop: "never_undefined (launch_loop w g l)"
  unfolding launch_loop_def
  by (intro never_undefined_intros)

lemma never_undefined_RunKernel_launch: "never_undefined (RunKernel_launch w src k)"
  unfolding RunKernel_launch_def
  by (intro never_undefined_intros never_undefined_reset_outputs never_undefined_set_arguments
        never_undefined_launch_loop)

lemma never_undefined_RunKernel_try: "never_undefined (RunKernel_try w src k)"
  unfolding RunKernel_try_def
  by (intro never_undefined_intros never_undefined_RunKernel_launch)

subsection \<open>Rounding and the elapsed time\<close>

lemma pow2_power_int: "pow2 e = 2 powi e"
  by (simp add: pow2_def power_int_def field_simps)

lemma pow2_pos: "0 < pow2 e"
  by (simp add: pow2_power_int)



lemma round_half_even_nonneg: "0 \<le> q \<Longrightarrow> 0 \<le> round_half_even q"
  by (auto simp: round_half_even_def Let_def)


lemma ilog2_upper:
  assumes "0 < x" "x < 2 ^ n" "0 < n"
  shows "ilog2 x \<le> int n - 1"
proof (cases "1 \<le> x")
  case True
  have "nat \<lfloor>x\<rfloor> < 2 ^ n"
    using assms True by (metis floor_less_iff nat_less_iff of_int_numeral of_int_power of_nat_numeral of_nat_power zero_le_floor order_trans zero_le_one)
  then have "floorlog 2 (nat \<lfloor>x\<rfloor>) \<le> n" by (simp add: floorlog_le_iff)
  with True show ?thesis by (simp add: ilog2_def)
next
  case False
  then show ?thesis using assms by (simp add: ilog2_def)
qed






subsection \<open>RunKernel and the log\<close>

lemma emits_if:
  "(c \<Longrightarrow> emits Q a) \<Longrightarrow> (\<not> c \<Longrightarrow> emits Q b) \<Longrightarrow> emits Q (if c then a else b)"
  by simp

lemmas emits_intros =
  emits_if emits_bind emits_return emits_throw emits_lift emits_call emits_log_event emits_foreach

lemma bind_exn_Inr:
  assumes "bind_exn m f st = (Inr y, st'')"
  obtains x st' where "m st = (Inr x, st')" "f x st' = (Inr y, st'')"
  using assms by (auto simp: bind_exn_def split: prod.splits sum.splits)

lemma emits_reset_outputs:
  assumes "\<And>b. Q (CallWrite b)"
  shows "emits Q (reset_outputs w)"
  unfolding reset_outputs_def
  by (rule emits_state, rule emits_foreach)
     (auto simp: ResetMemArgument_def assms split: MemType.split intro: emits_intros)

lemma emits_set_arguments:
  assumes "\<And>i. Q (CallSetArgument i)"
  shows "emits Q (set_arguments w)"
  unfolding set_arguments_def
  by (rule emits_state, rule emits_foreach) (rule emits_call, rule assms)

lemma emits_launch_loop:
  assumes "Q (CallLaunch g l)" "Q CallFinish"
  shows "emits Q (launch_loop w g l)"
  unfolding launch_loop_def by (intro emits_intros assms)

lemma emits_RunKernel_launch:
  "emits (\<lambda>e. is_device_call e \<and> \<not> is_time e) (RunKernel_launch w src k)"
  unfolding RunKernel_launch_def
  by (intro emits_intros emits_reset_outputs emits_set_arguments emits_launch_loop) simp_all






subsection \<open>The recorded time\<close>

lemma FLT_MAX_value: "FLT_MAX = Fin 340282346638528859811704183484516925440"
  by (simp add: FLT_MAX_def max_finite_def pow2_def)

lemmas fp_eval = round_float_def round_double_def round_nearest_def round_pos_def ilog2_def pow2_def
  max_finite_def round_half_even_def Let_def compute_floorlog

lemmas monad_eval = bind_exn_def return_exn_def throw_exn_def lift_exn_def call_def log_event_def


text \<open>
  The example of the specification: three launches whose counters span 5, 2 and 7
  milliseconds give the recorded time 2.
\<close>

lemma elapsed_ms_5: "elapsed_ms (1000, 5001000) = Fin 5"
  by (simp add: elapsed_ms_def fp_eval)



lemmas run_eval =
  RunKernel_def RunKernel_try_def RunKernel_launch_def scripted_world_def scripted_cl_def
  builds_fine_def plain_kernel_def initial_state_def monad_eval
  reset_outputs_def set_arguments_def argument_positions_def launch_loop_def
  IsLocalMemoryValid_def GetElapsedTime_def ResetMemArgument_def upt_rec fmin_def FLT_MAX_value



subsection \<open>Verification against the reference\<close>

lemma round_pos_not_negative: "0 < x \<Longrightarrow> not_negative (round_pos prec emin emax x)"
  by (simp add: round_pos_def Let_def pow2_pos round_half_even_nonneg less_imp_le)

lemma round_nearest_not_negative: "0 \<le> x \<Longrightarrow> not_negative (round_nearest prec emin emax x)"
  by (simp add: round_nearest_def round_pos_not_negative)

lemma fabs_not_negative: "not_negative (fabs x)"
  by (cases x) simp_all

lemma fadd_not_negative:
  "not_negative x \<Longrightarrow> not_negative y \<Longrightarrow> not_negative (fadd round_double x y)"
  by (cases x; cases y) (simp_all add: round_double_def round_nearest_not_negative)

lemma difference_at_not_negative: "not_negative (difference_at c T x y)"
  by (cases T)
     (simp_all add: AbsoluteDifference_def AbsoluteDifference2_def Let_def
        fabs_not_negative fadd_not_negative)

lemma l2_loop_not_negative:
  "not_negative acc \<Longrightarrow> l2_loop (difference_at c T) ref host js acc = Inr l2 \<Longrightarrow> not_negative l2"
proof (induction js arbitrary: acc)
  case Nil
  then show ?case by simp
next
  case (Cons j js)
  then show ?case
    by (auto split: if_splits intro: fadd_not_negative difference_at_not_negative)
qed

lemma verdict_cases:
  assumes "not_negative l2"
  shows "\<not> (isnan l2 \<or> fless (Fin eps) l2) \<longleftrightarrow> (\<exists>x. l2 = Fin x \<and> x \<le> eps)"
  using assms by (cases l2) auto

lemma reported_differences_append:
  "reported_differences (es @ es') = reported_differences es @ reported_differences es'"
  by (induction es rule: reported_differences.induct) simp_all

lemma DownloadAndCompare_result:
  assumes "kMaxL2Norm w = Fin eps"
    and "DownloadAndCompare w T b i st = (Inr ok, st')"
  shows "\<exists>host l2.
           Read (cl w) (calls st @ [EnterDownloadAndCompare (buffer b) i]) b = Returns host \<and>
           i < length (reference_outputs st) \<and>
           l2_loop (difference_at (cells w) T) (reference_outputs st ! i)
             (map host [0..<size_mem b]) [0..<size_mem b] (Fin 0) = Inr l2 \<and>
           (ok \<longleftrightarrow> (\<exists>x. l2 = Fin x \<and> x \<le> eps)) \<and>
           st' = st\<lparr>calls := calls st @
                   [EnterDownloadAndCompare (buffer b) i, CallRead (buffer b)] @
                   (if ok then [] else [PrintResultsDiffer l2])\<rparr>"
proof -
  let ?st1 = "st\<lparr>calls := calls st @ [EnterDownloadAndCompare (buffer b) i]\<rparr>"
  let ?st2 = "st\<lparr>calls := calls st @ [EnterDownloadAndCompare (buffer b) i, CallRead (buffer b)]\<rparr>"
  from assms(2) obtain host where
    host: "Read (cl w) (calls ?st1) b = Returns host"
    by (cases "Read (cl w) (calls ?st1) b")
       (auto simp: DownloadAndCompare_def monad_eval)
  from assms(2) host have i: "i < length (reference_outputs st)"
    by (auto simp: DownloadAndCompare_def monad_eval split: if_splits)
  let ?norm = "l2_loop (difference_at (cells w) T) (reference_outputs st ! i)
             (map host [0..<size_mem b]) [0..<size_mem b] (Fin 0)"
  from assms(2) host i obtain l2 where l2: "?norm = Inr l2"
    by (cases ?norm) (auto simp: DownloadAndCompare_def monad_eval)
  have nn: "not_negative l2" using l2 by (rule l2_loop_not_negative[rotated]) simp
  from assms host i l2 have
    ok: "ok = (\<not> (isnan l2 \<or> fless (Fin eps) l2))" and
    st': "st' = st\<lparr>calls := calls st @
                   [EnterDownloadAndCompare (buffer b) i, CallRead (buffer b)] @
                   (if ok then [] else [PrintResultsDiffer l2])\<rparr>"
    by (auto simp: DownloadAndCompare_def monad_eval split: if_splits)
  from ok verdict_cases[OF nn, of eps] have "ok \<longleftrightarrow> (\<exists>x. l2 = Fin x \<and> x \<le> eps)" by simp
  with host i l2 st' show ?thesis by auto
qed

lemma round_half_even_of_int: "round_half_even (real_of_int n) = n"
  by (simp add: round_half_even_def)

lemma round_pos_int:
  assumes "0 < m" "m < 2 ^ 53"
  shows "round_pos 53 (- 1022) 1023 (real_of_int m) = Fin (real_of_int m)"
proof -
  define e where "e = max (ilog2 (real_of_int m)) (- 1022)"
  have "real_of_int m < 2 ^ 53" using assms(2) by (metis of_int_less_numeral_power_cancel_iff)
  then have "ilog2 (real_of_int m) \<le> int 53 - 1"
    using assms(1) by (intro ilog2_upper) simp_all
  then have e: "e \<le> 52" by (simp add: e_def)
  define j where "j = nat (52 - e)"
  have ulp: "pow2 (e - int 53 + 1) = 1 / 2 ^ j"
  proof (cases "e = 52")
    case True
    then show ?thesis by (simp add: pow2_def j_def)
  next
    case False
    with e have "e < 52" by simp
    then show ?thesis by (simp add: pow2_def j_def)
  qed
  have q: "real_of_int m / (1 / 2 ^ j) = real_of_int (m * 2 ^ j)" by simp
  have y: "real_of_int (round_half_even (real_of_int m / (1 / 2 ^ j))) * (1 / 2 ^ j) = real_of_int m"
    unfolding q round_half_even_of_int by simp
  have "real_of_int m < 2 ^ 53" by fact
  also have "(2::real) ^ 53 \<le> max_finite 53 1023" by (simp add: max_finite_def pow2_def)
  finally have "\<not> max_finite 53 1023 < real_of_int m" by simp
  then show ?thesis
    by (simp only: round_pos_def Let_def e_def[symmetric] ulp y if_False)
qed

lemma round_double_int:
  assumes "- (2 ^ 53) < m" "m < 2 ^ 53"
  shows "round_double (real_of_int m) = Fin (real_of_int m)"
proof -
  consider "m = 0" | "0 < m" | "m < 0" by linarith
  then show ?thesis
  proof cases
    case 1
    then show ?thesis by (simp add: round_double_def round_nearest_def)
  next
    case 2
    with assms round_pos_int[of m] show ?thesis
      by (simp add: round_double_def round_nearest_def)
  next
    case 3
    with assms round_pos_int[of "- m"] show ?thesis
      by (simp add: round_double_def round_nearest_def)
  qed
qed

lemma int_to_double_exact: "int_to_double x = Fin (real_of_int (sint x))"
proof -
  have "- (2 ^ 31) \<le> sint x" "sint x < 2 ^ 31"
    using sint_ge[of x] sint_lt[of x] by simp_all
  then have "- (2 ^ 53) < sint x" "sint x < 2 ^ 53" by simp_all
  then show ?thesis unfolding int_to_double_def by (rule round_double_int)
qed

lemma fabs_fneg: "fabs (fneg x) = fabs x"
  by (cases x) simp_all

lemma fabs_not_negative_id: "not_negative x \<Longrightarrow> fabs x = x"
  by (cases x) simp_all

lemma fabs_round_double: "fabs (round_double z) = round_double \<bar>z\<bar>"
proof -
  consider "z = 0" | "0 < z" | "z < 0" by linarith
  then show ?thesis
  proof cases
    case 1
    then show ?thesis by (simp add: round_double_def round_nearest_def)
  next
    case 2
    then show ?thesis
      by (simp add: round_double_def round_nearest_def fabs_not_negative_id round_pos_not_negative)
  next
    case 3
    then show ?thesis
      by (simp add: round_double_def round_nearest_def fabs_fneg fabs_not_negative_id
          round_pos_not_negative)
  qed
qed

lemma fabs_fsub: "fabs (fsub round_double x y) = abs_difference x y"
  by (cases x; cases y) (simp_all add: fsub_def fabs_round_double)

lemma difference_at_is_distance:
  "T \<noteq> kUnsupported \<Longrightarrow> difference_at c T r x = element_distance c T r x"
  by (cases T)
     (simp_all add: AbsoluteDifference_def AbsoluteDifference2_def Let_def fabs_fsub
        int_to_double_exact size_t_to_double_def)


lemma within_threshold_iff: "within_threshold eps l2 \<longleftrightarrow> (\<exists>x. l2 = Fin x \<and> x \<le> eps)"
  by (cases l2) simp_all

lemma l2_loop_indices:
  assumes "\<forall>j\<in>set js. j < length reference_output \<and> j < length host_buffer"
  shows "l2_loop diff reference_output host_buffer js acc =
         Inr (foldl (fadd round_double) acc
                (map (\<lambda>j. diff (reference_output ! j) (host_buffer ! j)) js))"
  using assms by (induction js arbitrary: acc) simp_all

lemma l2_loop_is_sum:
  assumes "n \<le> length reference_output"
  shows "l2_loop diff reference_output (map host [0..<n]) [0..<n] (Fin 0) =
         Inr (foldl (fadd round_double) (Fin 0) (map2 diff reference_output (map host [0..<n])))"
proof -
  have "map (\<lambda>j. diff (reference_output ! j) (map host [0..<n] ! j)) [0..<n] =
        map2 diff reference_output (map host [0..<n])"
    using assms by (intro nth_equalityI) simp_all
  moreover have "\<forall>j\<in>set [0..<n]. j < length reference_output \<and> j < length (map host [0..<n])"
    using assms by simp
  ultimately show ?thesis by (simp only: l2_loop_indices)
qed

lemma DownloadAndCompare_norm:
  assumes "kMaxL2Norm w = Fin eps"
    and "T \<noteq> kUnsupported"
    and "size_mem b \<le> length (reference_outputs st ! i)"
    and "DownloadAndCompare w T b i st = (Inr ok, st')"
  shows "\<exists>host.
           Read (cl w) (calls st @ [EnterDownloadAndCompare (buffer b) i]) b = Returns host \<and>
           (ok \<longleftrightarrow> within_threshold eps
                    (L2_norm (cells w) T (reference_outputs st ! i) (map host [0..<size_mem b]))) \<and>
           st' = st\<lparr>calls := calls st @
                   [EnterDownloadAndCompare (buffer b) i, CallRead (buffer b)] @
                   (if ok then []
                    else [PrintResultsDiffer
                            (L2_norm (cells w) T (reference_outputs st ! i)
                               (map host [0..<size_mem b]))])\<rparr>"
proof -
  from DownloadAndCompare_result[OF assms(1,4)] obtain host l2 where
    r: "Read (cl w) (calls st @ [EnterDownloadAndCompare (buffer b) i]) b = Returns host"
       "l2_loop (difference_at (cells w) T) (reference_outputs st ! i)
             (map host [0..<size_mem b]) [0..<size_mem b] (Fin 0) = Inr l2"
       "ok \<longleftrightarrow> (\<exists>x. l2 = Fin x \<and> x \<le> eps)"
       "st' = st\<lparr>calls := calls st @
                   [EnterDownloadAndCompare (buffer b) i, CallRead (buffer b)] @
                   (if ok then [] else [PrintResultsDiffer l2])\<rparr>"
    by blast
  have "difference_at (cells w) T = element_distance (cells w) T"
    using assms(2) by (intro ext) (rule difference_at_is_distance)
  with r(2) l2_loop_is_sum[OF assms(3), of "element_distance (cells w) T" host]
  have "l2 = L2_norm (cells w) T (reference_outputs st ! i) (map host [0..<size_mem b])"
    by (simp add: L2_norm_def)
  with r(1,3,4) show ?thesis by (simp add: within_threshold_iff)
qed

lemma drop_Cons_nth:
  assumes "drop i xs = y # ys"
  shows "i < length xs" "xs ! i = y" "drop (i + 1) xs = ys"
proof -
  show i: "i < length xs" using assms by (cases "i < length xs") simp_all
  from Cons_nth_drop_Suc[OF i] assms show "xs ! i = y" "drop (i + 1) xs = ys" by simp_all
qed

lemma verify_loop_compared:
  assumes "kMaxL2Norm w = Fin eps"
    and "list_all2 (\<lambda>b reference_output. size_mem b \<le> length reference_output) bs
           (drop i (reference_outputs st))"
    and "verify_loop w bs i acc st = (Inr verified, st')"
  shows "\<exists>norms es.
           compared w eps (reference_outputs st) bs i (calls st) norms \<and>
           (verified \<longleftrightarrow> acc \<and> list_all (within_threshold eps) norms) \<and>
           st' = st\<lparr>calls := calls st @ es\<rparr> \<and>
           reported_differences es = filter (\<lambda>l2. \<not> within_threshold eps l2) norms"
  using assms(2,3)
proof (induction bs arbitrary: i acc st)
  case Nil
  then have "st' = st\<lparr>calls := calls st @ []\<rparr>" "verified = acc"
    by (simp_all add: return_exn_def)
  then show ?case by (intro exI[of _ "[]"]) simp
next
  case (Cons b bs)
  from Cons.prems(1) obtain reference_output rest where
    d: "drop i (reference_outputs st) = reference_output # rest" and
    fits: "size_mem b \<le> length reference_output" and
    others: "list_all2 (\<lambda>b reference_output. size_mem b \<le> length reference_output) bs rest"
    by (auto simp: list_all2_Cons1)
  note at = drop_Cons_nth[OF d]
  from Cons.prems(2) obtain same st1 where
    first: "(case type b of
               kUnsupported \<Rightarrow> throw_exn (RuntimeError ''Unsupported output data-type'')
             | T \<Rightarrow> DownloadAndCompare w T b i) st = (Inr same, st1)" and
    rest: "verify_loop w bs (i + 1) (acc \<and> same) st1 = (Inr verified, st')"
    by (auto elim: bind_exn_Inr)
  from first have supported: "type b \<noteq> kUnsupported"
    by (cases "type b") (simp_all add: throw_exn_def)
  from first have cmp: "DownloadAndCompare w (type b) b i st = (Inr same, st1)"
    by (cases "type b") (simp_all add: throw_exn_def)
  from fits at(2) have fits': "size_mem b \<le> length (reference_outputs st ! i)" by simp
  from DownloadAndCompare_norm[OF assms(1) supported fits' cmp] obtain host where
    host: "Read (cl w) (calls st @ [EnterDownloadAndCompare (buffer b) i]) b = Returns host" and
    same: "same \<longleftrightarrow> within_threshold eps
                    (L2_norm (cells w) (type b) (reference_outputs st ! i)
                       (map host [0..<size_mem b]))" and
    st1: "st1 = st\<lparr>calls := calls st @
                   [EnterDownloadAndCompare (buffer b) i, CallRead (buffer b)] @
                   (if same then []
                    else [PrintResultsDiffer
                            (L2_norm (cells w) (type b) (reference_outputs st ! i)
                               (map host [0..<size_mem b]))])\<rparr>"
    by blast
  define l2 where
    "l2 = L2_norm (cells w) (type b) (reference_outputs st ! i) (map host [0..<size_mem b])"
  have st1': "st1 = st\<lparr>calls := calls st @ compare_events eps b i l2\<rparr>"
    using st1 same by (simp add: compare_events_def l2_def)
  have ref1: "reference_outputs st1 = reference_outputs st" using st1' by simp
  from others at(3) have
    "list_all2 (\<lambda>b reference_output. size_mem b \<le> length reference_output) bs
       (drop (i + 1) (reference_outputs st1))"
    by (simp add: ref1)
  from Cons.IH[OF this rest] obtain norms es where
    es: "compared w eps (reference_outputs st1) bs (i + 1) (calls st1) norms"
        "verified \<longleftrightarrow> (acc \<and> same) \<and> list_all (within_threshold eps) norms"
        "st' = st1\<lparr>calls := calls st1 @ es\<rparr>"
        "reported_differences es = filter (\<lambda>l2. \<not> within_threshold eps l2) norms"
    by blast
  have "compared w eps (reference_outputs st) (b # bs) i (calls st) (l2 # norms)"
    using host es(1) by (simp add: ref1 st1' l2_def)
  moreover have "verified \<longleftrightarrow> acc \<and> list_all (within_threshold eps) (l2 # norms)"
    using es(2) same by (auto simp: l2_def)
  moreover have "st' = st\<lparr>calls := calls st @ (compare_events eps b i l2 @ es)\<rparr>"
    using es(3) st1' by simp
  moreover have "reported_differences (compare_events eps b i l2 @ es) =
                 filter (\<lambda>l2. \<not> within_threshold eps l2) (l2 # norms)"
    using es(4) by (simp add: reported_differences_append compare_events_def)
  ultimately show ?case by blast
qed

text \<open>
  Claim C2. With a finite threshold \<open>kMaxL2Norm = eps\<close>, and a snapshot that has an array
  of at least its size for the buffer at hand. When \<open>DownloadAndCompare\<close> returns for
  the \<open>i\<close>-th output buffer, the device answered the read, and the verdict is true
  exactly when the norm \<open>L2\<close>, the sum over the elements of \<open>|ref - cand|\<close> widened to
  \<open>double\<close> (of \<open>|\<Delta>real| + |\<Delta>imag|\<close> for the complex types) between the \<open>i\<close>-th array of
  the snapshot and the cells read, is a finite number at most \<open>eps\<close>; a NaN norm gives
  false; and the comparison logs the read, and the norm as differing exactly when the
  verdict is false. When \<open>VerifyOutput\<close> returns with a reference, it has compared
  every output buffer in turn, the \<open>k\<close>-th buffer with the \<open>k\<close>-th array of the snapshot,
  its status is true exactly when the norm of every buffer is a finite number at most
  \<open>eps\<close>, and the norms reported as differing are those that are not.
\<close>

theorem verdict_iff_norm_within_threshold:
  assumes "kMaxL2Norm w = Fin eps"
  shows "(type b \<noteq> kUnsupported \<longrightarrow> i < length (reference_outputs st) \<longrightarrow>
          size_mem b \<le> length (reference_outputs st ! i) \<longrightarrow>
          DownloadAndCompare w (type b) b i st = (Inr ok, st') \<longrightarrow>
           (\<exists>l2. compared w eps (reference_outputs st) [b] i (calls st) [l2] \<and>
                 (ok \<longleftrightarrow> within_threshold eps l2) \<and>
                 (l2 = NaN \<longrightarrow> \<not> ok) \<and>
                 new_calls st st' = compare_events eps b i l2)) \<and>
         (has_reference s \<longrightarrow> snapshot_covers s \<longrightarrow> VerifyOutput w s = (Inr verified, s') \<longrightarrow>
           (\<exists>norms.
              compared w eps (reference_outputs s) (arguments_output s) 0 (calls s) norms \<and>
              (verified \<longleftrightarrow> list_all (within_threshold eps) norms) \<and>
              reported_differences (new_calls s s') =
                filter (\<lambda>l2. \<not> within_threshold eps l2) norms))"
proof (intro conjI impI)
  assume "type b \<noteq> kUnsupported" "size_mem b \<le> length (reference_outputs st ! i)"
    "DownloadAndCompare w (type b) b i st = (Inr ok, st')"
  from DownloadAndCompare_norm[OF assms this] obtain host where
    host: "Read (cl w) (calls st @ [EnterDownloadAndCompare (buffer b) i]) b = Returns host" and
    ok: "ok \<longleftrightarrow> within_threshold eps
                    (L2_norm (cells w) (type b) (reference_outputs st ! i)
                       (map host [0..<size_mem b]))" and
    st': "st' = st\<lparr>calls := calls st @
                   [EnterDownloadAndCompare (buffer b) i, CallRead (buffer b)] @
                   (if ok then []
                    else [PrintResultsDiffer
                            (L2_norm (cells w) (type b) (reference_outputs st ! i)
                               (map host [0..<size_mem b]))])\<rparr>"
    by blast
  define l2 where
    "l2 = L2_norm (cells w) (type b) (reference_outputs st ! i) (map host [0..<size_mem b])"
  have "compared w eps (reference_outputs st) [b] i (calls st) [l2]"
    using host by (simp add: l2_def)
  moreover have "ok \<longleftrightarrow> within_threshold eps l2" using ok by (simp add: l2_def)
  moreover from this have "l2 = NaN \<longrightarrow> \<not> ok" by auto
  moreover have "new_calls st st' = compare_events eps b i l2"
    using st' ok by (simp add: new_calls_def compare_events_def l2_def)
  ultimately show "\<exists>l2. compared w eps (reference_outputs st) [b] i (calls st) [l2] \<and>
                 (ok \<longleftrightarrow> within_threshold eps l2) \<and>
                 (l2 = NaN \<longrightarrow> \<not> ok) \<and>
                 new_calls st st' = compare_events eps b i l2"
    by blast
next
  assume "has_reference s" and covers: "snapshot_covers s"
    and "VerifyOutput w s = (Inr verified, s')"
  then have loop: "verify_loop w (arguments_output s) 0 True s = (Inr verified, s')"
    by (simp add: VerifyOutput_def)
  from covers have
    "list_all2 (\<lambda>b reference_output. size_mem b \<le> length reference_output)
       (arguments_output s) (drop 0 (reference_outputs s))"
    by (simp add: snapshot_covers_def)
  from verify_loop_compared[OF assms this loop] obtain norms es where
    es: "compared w eps (reference_outputs s) (arguments_output s) 0 (calls s) norms"
        "verified \<longleftrightarrow> True \<and> list_all (within_threshold eps) norms"
        "s' = s\<lparr>calls := calls s @ es\<rparr>"
        "reported_differences es = filter (\<lambda>l2. \<not> within_threshold eps l2) norms"
    by blast
  from es(3) have "new_calls s s' = es" by (simp add: new_calls_def)
  with es(1,2,4) show "\<exists>norms.
              compared w eps (reference_outputs s) (arguments_output s) 0 (calls s) norms \<and>
              (verified \<longleftrightarrow> list_all (within_threshold eps) norms) \<and>
              reported_differences (new_calls s s') =
                filter (\<lambda>l2. \<not> within_threshold eps l2) norms"
    by auto
qed

lemma round_double_small:
  "round_double 0 = Fin 0" "round_double 1 = Fin 1" "round_double (- 1) = Fin (- 1)"
  using round_double_int[of 0] round_double_int[of 1] round_double_int[of "- 1"] by simp_all

lemma compared_unique:
  "compared w eps snapshot bs k h norms \<Longrightarrow> compared w eps snapshot bs k h norms' \<Longrightarrow>
   norms = norms'"
proof (induction bs arbitrary: k h norms norms')
  case Nil
  then show ?case by simp
next
  case (Cons b bs)
  then show ?case
    by (cases norms; cases norms') (auto split: reply.splits)
qed

text \<open>
  An example: of three buffers compared with a snapshot of zeroes, the one that reads
  back as zeroes passes, the one that is off by one in a cell has norm 1 and fails, and
  the one that reads back as NaN has a NaN norm and fails; the status is false.
\<close>

lemmas verify_eval =
  VerifyOutput_def DownloadAndCompare_def scripted_world_def scripted_cl_def
  reads_three_def initial_state_def three_outputs_state_def double_buffer_def monad_eval
  double_cells_def AbsoluteDifference_def fsub_def upt_rec round_double_small

lemma compare_one_off:
  "DownloadAndCompare (scripted_world 1 (scripted_cl builds_fine counters_527 reads_three))
     kDouble (double_buffer 1) 1 three_outputs_state =
   (Inr False, three_outputs_state\<lparr>calls :=
      [EnterDownloadAndCompare 1 1, CallRead 1, PrintResultsDiffer (Fin 1)]\<rparr>)"
  by (simp add: verify_eval)

lemma verify_three:
  "VerifyOutput (scripted_world 1 (scripted_cl builds_fine counters_527 reads_three))
     three_outputs_state =
   (Inr False, three_outputs_state\<lparr>calls :=
      [EnterDownloadAndCompare 0 0, CallRead 0,
       EnterDownloadAndCompare 1 1, CallRead 1, PrintResultsDiffer (Fin 1),
       EnterDownloadAndCompare 2 2, CallRead 2, PrintResultsDiffer NaN]\<rparr>)"
  by (simp add: verify_eval)

lemma compared_one_off:
  "compared (scripted_world 1 (scripted_cl builds_fine counters_527 reads_three)) (1 / 10000)
     (reference_outputs three_outputs_state) [double_buffer 1] 1
     (calls three_outputs_state) [Fin 1]"
  by (simp add: scripted_world_def scripted_cl_def reads_three_def initial_state_def
      three_outputs_state_def double_buffer_def double_cells_def L2_norm_def upt_rec
      round_double_small compare_events_def)

lemma compared_three:
  "compared (scripted_world 1 (scripted_cl builds_fine counters_527 reads_three)) (1 / 10000)
     (reference_outputs three_outputs_state) (arguments_output three_outputs_state) 0
     (calls three_outputs_state) [Fin 0, Fin 1, NaN]"
  by (simp add: scripted_world_def scripted_cl_def reads_three_def initial_state_def
      three_outputs_state_def double_buffer_def double_cells_def L2_norm_def upt_rec
      round_double_small compare_events_def)

theorem verdict_iff_norm_within_threshold_witness:
  "kMaxL2Norm (scripted_world 1 (scripted_cl builds_fine counters_527 reads_three)) =
     Fin (1 / 10000) \<and>
   type (double_buffer 1) \<noteq> kUnsupported \<and>
   1 < length (reference_outputs three_outputs_state) \<and>
   size_mem (double_buffer 1) \<le> length (reference_outputs three_outputs_state ! 1) \<and>
   has_reference three_outputs_state \<and>
   snapshot_covers three_outputs_state \<and>
   DownloadAndCompare (scripted_world 1 (scripted_cl builds_fine counters_527 reads_three))
     kDouble (double_buffer 1) 1 three_outputs_state =
   (Inr False, three_outputs_state\<lparr>calls :=
      [EnterDownloadAndCompare 1 1, CallRead 1, PrintResultsDiffer (Fin 1)]\<rparr>) \<and>
   VerifyOutput (scripted_world 1 (scripted_cl builds_fine counters_527 reads_three))
     three_outputs_state =
   (Inr False, three_outputs_state\<lparr>calls :=
      [EnterDownloadAndCompare 0 0, CallRead 0,
       EnterDownloadAndCompare 1 1, CallRead 1, PrintResultsDiffer (Fin 1),
       EnterDownloadAndCompare 2 2, CallRead 2, PrintResultsDiffer NaN]\<rparr>) \<and>
   new_calls three_outputs_state
     (three_outputs_state\<lparr>calls :=
        [EnterDownloadAndCompare 1 1, CallRead 1, PrintResultsDiffer (Fin 1)]\<rparr>) =
   compare_events (1 / 10000) (double_buffer 1) 1 (Fin 1) \<and>
   reported_differences (new_calls three_outputs_state
     (three_outputs_state\<lparr>calls :=
      [EnterDownloadAndCompare 0 0, CallRead 0,
       EnterDownloadAndCompare 1 1, CallRead 1, PrintResultsDiffer (Fin 1),
       EnterDownloadAndCompare 2 2, CallRead 2, PrintResultsDiffer NaN]\<rparr>)) =
   filter (\<lambda>l2. \<not> within_threshold (1 / 10000) l2) [Fin 0, Fin 1, NaN]"
proof -
  let ?w = "scripted_world 1 (scripted_cl builds_fine counters_527 reads_three)"
  let ?s' = "three_outputs_state\<lparr>calls :=
      [EnterDownloadAndCompare 0 0, CallRead 0,
       EnterDownloadAndCompare 1 1, CallRead 1, PrintResultsDiffer (Fin 1),
       EnterDownloadAndCompare 2 2, CallRead 2, PrintResultsDiffer NaN]\<rparr>"
  have eps: "kMaxL2Norm ?w = Fin (1 / 10000)"
    by (simp add: scripted_world_def)
  have type: "type (double_buffer 1) \<noteq> kUnsupported"
    and kdouble: "type (double_buffer 1) = kDouble"
    and index: "1 < length (reference_outputs three_outputs_state)"
    and fits: "size_mem (double_buffer 1) \<le> length (reference_outputs three_outputs_state ! 1)"
    and ref: "has_reference three_outputs_state"
    and covers: "snapshot_covers three_outputs_state"
    by (simp_all add: double_buffer_def three_outputs_state_def initial_state_def
        snapshot_covers_def)
  from verdict_iff_norm_within_threshold [OF eps,
      where s = three_outputs_state and verified = False and s' = ?s']
    ref covers verify_three
  obtain norms where
    norms: "compared ?w (1 / 10000) (reference_outputs three_outputs_state)
              (arguments_output three_outputs_state) 0 (calls three_outputs_state) norms"
      "reported_differences (new_calls three_outputs_state ?s') =
         filter (\<lambda>l2. \<not> within_threshold (1 / 10000) l2) norms"
    by blast
  from norms(1) compared_three have "norms = [Fin 0, Fin 1, NaN]" by (rule compared_unique)
  with norms(2) have "reported_differences (new_calls three_outputs_state ?s') =
         filter (\<lambda>l2. \<not> within_threshold (1 / 10000) l2) [Fin 0, Fin 1, NaN]"
    by simp
  moreover
  let ?s1 = "three_outputs_state\<lparr>calls :=
      [EnterDownloadAndCompare 1 1, CallRead 1, PrintResultsDiffer (Fin 1)]\<rparr>"
  from verdict_iff_norm_within_threshold [OF eps,
      where b = "double_buffer 1" and i = 1 and st = three_outputs_state and ok = False
        and st' = ?s1]
    type index fits compare_one_off
  obtain l2 where
    l2: "compared ?w (1 / 10000) (reference_outputs three_outputs_state) [double_buffer 1] 1
           (calls three_outputs_state) [l2]"
      "new_calls three_outputs_state ?s1 = compare_events (1 / 10000) (double_buffer 1) 1 l2"
    unfolding kdouble by blast
  from l2(1) compared_one_off have "[l2] = [Fin 1]" by (rule compared_unique)
  with l2(2) have "new_calls three_outputs_state ?s1 =
                   compare_events (1 / 10000) (double_buffer 1) 1 (Fin 1)"
    by simp
  ultimately show ?thesis
    using eps type index fits ref covers
    by (intro conjI) (rule compare_one_off verify_three | assumption)+
qed
subsection \<open>What RunKernel and VerifyOutput log and return\<close>

lemma emits_GetElapsedTime:
  assumes "\<And>t v. Q (CallGetElapsedTime t v)"
  shows "emits Q (GetElapsedTime w t)"
proof (rule emitsI)
  fix st r and st' :: "'a TunerImpl"
  assume "GetElapsedTime w t st = (r, st')"
  then have "st' = st\<lparr>calls := calls st @
      [CallGetElapsedTime t (map_reply elapsed_ms (Profile (cl w) (calls st) t))]\<rparr>"
    by (auto simp: GetElapsedTime_def Let_def)
  with assms show "\<exists>es. st' = st\<lparr>calls := calls st @ es\<rparr> \<and> list_all Q es"
    by (intro exI[of _ "[CallGetElapsedTime t (map_reply elapsed_ms (Profile (cl w) (calls st) t))]"]) simp
qed

lemma emits_timing_loop:
  assumes "\<And>t v. Q (CallGetElapsedTime t v)"
  shows "emits Q (timing_loop w ts acc)"
proof (induction ts arbitrary: acc)
  case Nil
  show ?case by (simp add: emits_return)
next
  case (Cons t ts)
  show ?case by (simp, rule emits_bind) (simp_all add: emits_GetElapsedTime assms Cons)
qed

lemma emits_RunKernel_try: "emits is_device_call (RunKernel_try w src k)"
  unfolding RunKernel_try_def
  by (intro emits_intros emits_timing_loop emits_weaken[OF emits_RunKernel_launch]) simp_all

lemma RunKernel_returns:
  obtains result es where
    "RunKernel w src k kref cid n st =
       (Inr result, st\<lparr>calls := calls st @ EnterRunKernel kref cid n # es\<rparr>)"
    "list_all is_device_call es"
    "kernel_name result = name k"
    "\<And>msg stx. RunKernel_try w src k (st\<lparr>calls := calls st @ [EnterRunKernel kref cid n]\<rparr>) =
        (Inl (RuntimeError msg), stx) \<Longrightarrow> time result = FLT_MAX \<and> threads result = 0"
    "\<And>res stx. RunKernel_try w src k (st\<lparr>calls := calls st @ [EnterRunKernel kref cid n]\<rparr>) =
        (Inr res, stx) \<Longrightarrow> result = res"
proof -
  let ?st0 = "st\<lparr>calls := calls st @ [EnterRunKernel kref cid n]\<rparr>"
  obtain r st1 where run: "RunKernel_try w src k ?st0 = (r, st1)"
    by (cases "RunKernel_try w src k ?st0")
  from emits_RunKernel_try run obtain es where
    es: "st1 = ?st0\<lparr>calls := calls ?st0 @ es\<rparr>" "list_all is_device_call es"
    by (rule emitsD)
  then have st1: "st1 = st\<lparr>calls := calls st @ EnterRunKernel kref cid n # es\<rparr>" by simp
  from never_undefined_RunKernel_try[of w src k] run have ub: "r \<noteq> Inl UndefinedBehaviour"
    unfolding never_undefined_def by (metis fst_conv)
  show thesis
  proof (cases r)
    case (Inr res)
    from run Inr have name: "kernel_name res = name k"
      unfolding RunKernel_try_def by (auto elim!: bind_exn_Inr simp: return_exn_def)
    show thesis
      by (rule that[of res es]) (use run Inr st1 es(2) name in \<open>simp_all add: RunKernel_def\<close>)
  next
    case (Inl e)
    with ub obtain msg where e: "e = RuntimeError msg" by (cases e) auto
    show thesis
      by (rule that[of "\<lparr> kernel_name = name k, time = FLT_MAX, threads = 0, status = False,
                 configuration = [] \<rparr>" es])
         (use run Inl e st1 es(2) in \<open>simp_all add: RunKernel_def\<close>)
  qed
qed

lemma VerifyOutput_without_reference:
  "\<not> has_reference st \<Longrightarrow> VerifyOutput w st = (Inr True, st)"
  by (simp add: VerifyOutput_def return_exn_def)

lemma emits_DownloadAndCompare: "emits is_verification (DownloadAndCompare w T b i)"
  unfolding DownloadAndCompare_def
  by (intro emits_intros emits_nothing) (simp_all split: if_splits)

lemma emits_verify_loop: "emits is_verification (verify_loop w bs i acc)"
proof (induction bs arbitrary: i acc)
  case Nil
  show ?case by (simp add: emits_return)
next
  case (Cons b bs)
  show ?case
    by (simp, rule emits_bind)
       (auto simp: Cons split: MemType.split intro: emits_throw emits_DownloadAndCompare)
qed

lemma emits_VerifyOutput: "emits is_verification (VerifyOutput w)"
proof (rule emitsI)
  fix st r and st' :: "'a TunerImpl"
  assume run: "VerifyOutput w st = (r, st')"
  show "\<exists>es. st' = st\<lparr>calls := calls st @ es\<rparr> \<and> list_all is_verification es"
  proof (cases "has_reference st")
    case True
    with run have "verify_loop w (arguments_output st) 0 True st = (r, st')"
      by (simp add: VerifyOutput_def)
    with emits_verify_loop show ?thesis by (rule emitsD) blast
  next
    case False
    with run have "st' = st\<lparr>calls := calls st @ []\<rparr>"
      by (simp add: VerifyOutput_without_reference)
    then show ?thesis by (intro exI[of _ "[]"]) simp
  qed
qed


subsection \<open>How the state moves while kernels are tuned\<close>

lemma advances_refl: "advances Q P st st"
  unfolding advances_def by (auto intro: exI[of _ "[]"])

lemma advances_trans:
  assumes "advances Q P a b" "advances Q P b c"
  shows "advances Q P a c"
proof -
  from assms obtain es1 es2 rs1 rs2 where
    "calls b = calls a @ es1" "list_all Q es1" "calls c = calls b @ es2" "list_all Q es2"
    "tuning_results b = tuning_results a @ rs1" "list_all P rs1"
    "tuning_results c = tuning_results b @ rs2" "list_all P rs2"
    unfolding advances_def by blast
  then have "calls c = calls a @ (es1 @ es2) \<and> list_all Q (es1 @ es2)"
    "tuning_results c = tuning_results a @ (rs1 @ rs2) \<and> list_all P (rs1 @ rs2)"
    by simp_all
  then have "\<exists>es. calls c = calls a @ es \<and> list_all Q es"
    "\<exists>rs. tuning_results c = tuning_results a @ rs \<and> list_all P rs"
    by blast+
  with assms show ?thesis unfolding advances_def by simp
qed

lemma advances_mono:
  assumes "advances Q P st st'" "\<And>e. Q e \<Longrightarrow> Q' e" "\<And>r. P r \<Longrightarrow> P' r"
  shows "advances Q' P' st st'"
proof -
  from assms(1) obtain es rs where
    "calls st' = calls st @ es" "list_all Q es"
    "tuning_results st' = tuning_results st @ rs" "list_all P rs"
    unfolding advances_def by blast
  with assms(2,3) have "\<exists>es. calls st' = calls st @ es \<and> list_all Q' es"
    "\<exists>rs. tuning_results st' = tuning_results st @ rs \<and> list_all P' rs"
    by (auto simp: list_all_iff)
  with assms(1) show ?thesis unfolding advances_def by simp
qed

lemma log_advances:
  assumes "list_all Q es"
  shows "advances Q P st (st\<lparr>calls := calls st @ es\<rparr>)"
  unfolding advances_def using assms by (auto intro: exI[of _ "[]"])

lemma emits_advances:
  assumes "emits Q m" "m st = (r, st')"
  shows "advances Q P st st'"
  using assms(1,2) by (rule emitsD) (simp add: log_advances)

lemma compute_ranges_advances:
  assumes "compute_ranges w k perm st = (r, st')"
  shows "advances Q P st st'"
  using assms unfolding compute_ranges_def advances_def
  by (auto split: sum.splits intro: exI[of _ "[]"])

lemma map_update_same: "(map f xs)[k := f (xs ! k)] = map f xs"
proof (cases "k < length xs")
  case True
  then have "(map f xs) ! k = f (xs ! k)" by simp
  then show ?thesis by (metis list_update_id)
next
  case False
  then show ?thesis by (simp add: list_update_beyond)
qed

lemma compute_ranges_configurations:
  assumes "compute_ranges w k perm st = (r, st')"
  shows "map configurations (kernels st') = map configurations (kernels st)"
  using assms unfolding compute_ranges_def
  by (auto split: sum.splits simp: map_update map_update_same)

lemma store_result_advances:
  assumes "P r"
  shows "advances Q P st (snd (store_result r st))" "fst (store_result r st) = Inr ()"
  unfolding advances_def store_result_def using assms
  by (auto intro: exI[of _ "[]"])

lemma emits_report_result:
  assumes "\<And>m r. Q (CallPrintResult m r)"
  shows "emits Q (report_result r)"
  unfolding report_result_def by (intro emits_intros assms)


lemma measure_configuration_steps:
  assumes "measure_configuration w k perm cid n st = (res, st')"
  obtains (ranges_threw) e where
      "compute_ranges w k perm st = (Inl e, st)" "res = Inl e" "st' = st"
  | (measured) st1 r0 es v where
      "compute_ranges w k perm st = (Inr (), st1)"
      "RunKernel w (concat (map (GetDefine (kernel_ops w)) perm) @ source (kernels st1 ! k))
         (kernels st1 ! k) (TunedKernel k) cid n st1 =
       (Inr r0, st1\<lparr>calls := calls st1 @ EnterRunKernel (TunedKernel k) cid n # es\<rparr>)"
      "list_all is_device_call es"
      "VerifyOutput w (st1\<lparr>calls := calls st1 @ EnterRunKernel (TunedKernel k) cid n # es\<rparr>) = (v, st')"
      "res = map_sum id (\<lambda>verified. r0\<lparr>status := verified\<rparr>) v"
proof -
  obtain c st1 where c: "compute_ranges w k perm st = (c, st1)"
    by (cases "compute_ranges w k perm st")
  show thesis
  proof (cases c)
    case (Inl e)
    with c have "st1 = st" by (auto simp: compute_ranges_def split: sum.splits)
    with c Inl assms show thesis
      by (intro ranges_threw[of e]) (simp_all add: measure_configuration_def bind_exn_def)
  next
    case (Inr u)
    obtain r0 es where
      run: "RunKernel w (concat (map (GetDefine (kernel_ops w)) perm) @ source (kernels st1 ! k))
         (kernels st1 ! k) (TunedKernel k) cid n st1 =
       (Inr r0, st1\<lparr>calls := calls st1 @ EnterRunKernel (TunedKernel k) cid n # es\<rparr>)"
      and es: "list_all is_device_call es"
      by (rule RunKernel_returns)
    let ?st2 = "st1\<lparr>calls := calls st1 @ EnterRunKernel (TunedKernel k) cid n # es\<rparr>"
    obtain v st3 where v: "VerifyOutput w ?st2 = (v, st3)" by (cases "VerifyOutput w ?st2")
    from assms c Inr run v have "st' = st3" "res = map_sum id (\<lambda>verified. r0\<lparr>status := verified\<rparr>) v"
      by (cases v; simp add: measure_configuration_def bind_exn_def return_exn_def)+
    with c Inr run es v show thesis
      by (intro measured[of st1 r0 es v]) simp_all
  qed
qed


lemma measure_configuration_advances:
  assumes run: "measure_configuration w k perm cid n st = (res, st')"
    and Q: "Q (EnterRunKernel (TunedKernel k) cid n)" "\<And>e. is_device_call e \<Longrightarrow> Q e"
      "\<And>e. has_reference st \<Longrightarrow> is_verification e \<Longrightarrow> Q e"
  shows "advances Q P st st'"
    and "\<not> has_reference st \<Longrightarrow> res = Inr r \<Longrightarrow> status r"
proof -
  show "advances Q P st st'"
    using run
  proof (cases rule: measure_configuration_steps)
    case (ranges_threw e)
    then show ?thesis by (simp add: advances_refl)
  next
    case (measured st1 r0 es v)
    let ?st2 = "st1\<lparr>calls := calls st1 @ EnterRunKernel (TunedKernel k) cid n # es\<rparr>"
    have a1: "advances Q P st st1" using measured(1) by (rule compute_ranges_advances)
    have "list_all Q (EnterRunKernel (TunedKernel k) cid n # es)"
      using measured(3) Q(1,2) by (simp add: list_all_iff)
    then have a2: "advances Q P st1 ?st2" by (rule log_advances)
    have href: "has_reference ?st2 = has_reference st"
      using a1 by (simp add: advances_def)
    have a3: "advances Q P ?st2 st'"
    proof (cases "has_reference st")
      case True
      have "emits Q (VerifyOutput w)"
        by (rule emits_weaken[OF emits_VerifyOutput]) (rule Q(3)[OF True])
      then show ?thesis using measured(4) by (rule emits_advances)
    next
      case False
      with href measured(4) have "st' = ?st2" by (simp add: VerifyOutput_without_reference)
      then show ?thesis by (simp add: advances_refl)
    qed
    from a1 a2 a3 show ?thesis by (blast intro: advances_trans)
  qed
next
  assume nr: "\<not> has_reference st" and res: "res = Inr r"
  from run show "status r"
  proof (cases rule: measure_configuration_steps)
    case (ranges_threw e)
    with res show ?thesis by simp
  next
    case (measured st1 r0 es v)
    let ?st2 = "st1\<lparr>calls := calls st1 @ EnterRunKernel (TunedKernel k) cid n # es\<rparr>"
    have "has_reference ?st2 = has_reference st"
      using compute_ranges_advances[OF measured(1), of "\<lambda>_. True" "\<lambda>_. True"]
      by (simp add: advances_def)
    with nr measured(4) have "v = Inr True" by (simp add: VerifyOutput_without_reference)
    with measured(5) res show ?thesis by auto
  qed
qed

lemma tune_iteration_steps:
  assumes "tune_iteration w k p s st = (res, st')"
  obtains (threw) e where
      "measure_configuration w k (GetConfiguration (searcher w) s) p
         (NumConfigurations (searcher w) s) st = (Inl e, st')" "res = Inl e"
  | (stored) r st1 where
      "measure_configuration w k (GetConfiguration (searcher w) s) p
         (NumConfigurations (searcher w) s) st = (Inr r, st1)"
      "res = Inr (CalculateNextIndex (searcher w) (PushExecutionTime (searcher w) (time r) s))"
      "report_result (r\<lparr>configuration := GetConfiguration (searcher w) s\<rparr>)
         (st1\<lparr>tuning_results := tuning_results st1 @
            [r\<lparr>configuration := GetConfiguration (searcher w) s\<rparr>]\<rparr>) = (Inr (), st')"
proof -
  let ?perm = "GetConfiguration (searcher w) s"
  obtain m st1 where m: "measure_configuration w k ?perm p (NumConfigurations (searcher w) s) st = (m, st1)"
    by (cases "measure_configuration w k ?perm p (NumConfigurations (searcher w) s) st")
  show thesis
  proof (cases m)
    case (Inl e)
    with m assms show thesis
      by (intro threw[of e]) (simp_all add: tune_iteration_def Let_def bind_exn_def)
  next
    case (Inr r)
    let ?stored = "r\<lparr>configuration := ?perm\<rparr>"
    let ?st2 = "st1\<lparr>tuning_results := tuning_results st1 @ [?stored]\<rparr>"
    have rep: "fst (report_result ?stored ?st2) = Inr ()"
      by (simp add: report_result_def log_event_def return_exn_def)
    obtain x st3 where x: "report_result ?stored ?st2 = (x, st3)"
      by (cases "report_result ?stored ?st2")
    with rep have x': "x = Inr ()" by simp
    from m Inr assms x x' have
      "res = Inr (CalculateNextIndex (searcher w) (PushExecutionTime (searcher w) (time r) s))"
      "st' = st3"
      by (simp_all add: tune_iteration_def Let_def bind_exn_def store_result_def return_exn_def)
    with m Inr x x' show thesis
      by (intro stored[of r st1]) simp_all
  qed
qed


lemma tune_iteration_advances:
  assumes run: "tune_iteration w k p s st = (res, st')"
    and Q: "\<And>cid n. Q (EnterRunKernel (TunedKernel k) cid n)" "\<And>e. is_device_call e \<Longrightarrow> Q e"
      "\<And>e. has_reference st \<Longrightarrow> is_verification e \<Longrightarrow> Q e" "\<And>m r. Q (CallPrintResult m r)"
    and P: "\<And>r. (\<not> has_reference st \<longrightarrow> status r) \<Longrightarrow> P r"
  shows "advances Q P st st'"
  using run
proof (cases rule: tune_iteration_steps)
  case (threw e)
  from measure_configuration_advances(1)[OF threw(1), of Q P] Q(1-3) show ?thesis by blast
next
  case (stored r st1)
  let ?stored = "r\<lparr>configuration := GetConfiguration (searcher w) s\<rparr>"
  let ?st2 = "st1\<lparr>tuning_results := tuning_results st1 @ [?stored]\<rparr>"
  have a1: "advances Q P st st1"
    using measure_configuration_advances(1)[OF stored(1), of Q P] Q(1-3) by blast
  have "\<not> has_reference st \<longrightarrow> status ?stored"
    using measure_configuration_advances(2)[OF stored(1), of "\<lambda>_. True" r] by simp
  then have "P ?stored" by (rule P)
  from store_result_advances(1)[of P ?stored Q st1, OF this] have a2: "advances Q P st1 ?st2"
    by (simp add: store_result_def)
  have a3: "advances Q P ?st2 st'"
    using emits_report_result stored(3) by (rule emits_advances) (rule Q(4))
  from a1 a2 a3 show ?thesis by (blast intro: advances_trans)
qed

lemma tune_iteration_next:
  assumes "tune_iteration w k p s st = (Inr s', st')" "steady_searcher w"
  shows "NumConfigurations (searcher w) s' = NumConfigurations (searcher w) s"
  using assms(1)
proof (cases rule: tune_iteration_steps)
  case (threw e)
  then show ?thesis by simp
next
  case (stored r st1)
  with assms(2) show ?thesis by (simp add: steady_searcher_def)
qed

lemma tune_loop_invariant:
  assumes steady: "steady_searcher w"
    and step: "\<And>p s st res st'. Inv st \<Longrightarrow> tune_iteration w k p s st = (res, st') \<Longrightarrow> Inv st'"
    and init: "Inv st"
  shows "\<exists>res st'. tune_loop w k p s st = Some (res, st') \<and> Inv st'"
  using init
proof (induction "NumConfigurations (searcher w) s - p" arbitrary: p s st)
  case 0
  then have "\<not> p < NumConfigurations (searcher w) s" by simp
  then have "tune_loop w k p s st = Some (Inr s, st)" by (subst tune_loop.simps) simp
  with "0.prems" show ?case by blast
next
  case (Suc d)
  then have less: "p < NumConfigurations (searcher w) s" by simp
  obtain res st1 where it: "tune_iteration w k p s st = (res, st1)"
    by (cases "tune_iteration w k p s st")
  from step[OF Suc.prems it] have inv1: "Inv st1" .
  show ?case
  proof (cases res)
    case (Inl e)
    with less it have "tune_loop w k p s st = Some (Inl e, st1)" by (subst tune_loop.simps) simp
    with inv1 show ?thesis by blast
  next
    case (Inr s')
    with less it have unfold: "tune_loop w k p s st = tune_loop w k (p + 1) s' st1"
      by (subst tune_loop.simps) simp
    from it Inr steady have "NumConfigurations (searcher w) s' = NumConfigurations (searcher w) s"
      by (intro tune_iteration_next) simp_all
    with Suc.hyps(2) have "d = NumConfigurations (searcher w) s' - (p + 1)" by simp
    from Suc.hyps(1)[OF this inv1] unfold show ?thesis by simp
  qed
qed

lemma tune_loop_completes:
  assumes steady: "steady_searcher w"
    and step: "\<And>p s st. p < N \<Longrightarrow> NumConfigurations (searcher w) s = N \<Longrightarrow> Inv p st \<Longrightarrow>
        \<exists>s' st'. tune_iteration w k p s st = (Inr s', st') \<and> Inv (p + 1) st'"
    and init: "Inv p st" "p \<le> N" "NumConfigurations (searcher w) s = N"
  shows "\<exists>s' st'. tune_loop w k p s st = Some (Inr s', st') \<and> Inv N st'"
  using init
proof (induction "N - p" arbitrary: p s st)
  case 0
  then have "p = N" by simp
  with "0.prems" have "tune_loop w k p s st = Some (Inr s, st)" by (subst tune_loop.simps) simp
  with "0.prems" \<open>p = N\<close> show ?case by blast
next
  case (Suc d)
  then have less: "p < N" by simp
  from step[OF less Suc.prems(3) Suc.prems(1)] obtain s' st1 where
    it: "tune_iteration w k p s st = (Inr s', st1)" and inv1: "Inv (p + 1) st1" by blast
  from less it Suc.prems(3) have unfold: "tune_loop w k p s st = tune_loop w k (p + 1) s' st1"
    by (subst tune_loop.simps) simp
  from it steady Suc.prems(3) have n: "NumConfigurations (searcher w) s' = N"
    using tune_iteration_next by metis
  from Suc.hyps(2) have "d = N - (p + 1)" by simp
  from Suc.hyps(1)[OF this inv1 _ n] less unfold show ?case by simp
qed


lemma plain_kernel_steps:
  assumes "parameters (kernels st ! k) = []"
  obtains r0 es v st' where
    "RunKernel w (source (kernels st ! k)) (kernels st ! k) (TunedKernel k) 0 1 st =
       (Inr r0, st\<lparr>calls := calls st @ EnterRunKernel (TunedKernel k) 0 1 # es\<rparr>)"
    "list_all is_device_call es"
    "VerifyOutput w (st\<lparr>calls := calls st @ EnterRunKernel (TunedKernel k) 0 1 # es\<rparr>) = (v, st')"
    "tune_kernel w k st =
       Some (case v of
               Inl e \<Rightarrow> (Inl e, st')
             | Inr verified \<Rightarrow>
                 (Inr (), st'\<lparr>tuning_results := tuning_results st' @ [r0\<lparr>status := verified\<rparr>]\<rparr>))"
proof -
  obtain r0 es where
    run: "RunKernel w (source (kernels st ! k)) (kernels st ! k) (TunedKernel k) 0 1 st =
       (Inr r0, st\<lparr>calls := calls st @ EnterRunKernel (TunedKernel k) 0 1 # es\<rparr>)"
    and es: "list_all is_device_call es"
    by (rule RunKernel_returns)
  let ?st2 = "st\<lparr>calls := calls st @ EnterRunKernel (TunedKernel k) 0 1 # es\<rparr>"
  obtain v st' where v: "VerifyOutput w ?st2 = (v, st')" by (cases "VerifyOutput w ?st2")
  have "tune_kernel w k st =
       Some (case v of
               Inl e \<Rightarrow> (Inl e, st')
             | Inr verified \<Rightarrow>
                 (Inr (), st'\<lparr>tuning_results := tuning_results st' @ [r0\<lparr>status := verified\<rparr>]\<rparr>))"
    using assms run v
    by (cases v) (simp_all add: tune_kernel_def bind_exn_def store_result_def)
  with run es v show thesis by (rule that)
qed

lemma tune_kernel_advances:
  assumes steady: "steady_searcher w"
    and Q: "\<And>cid n. Q (EnterRunKernel (TunedKernel k) cid n)" "\<And>e. is_device_call e \<Longrightarrow> Q e"
      "\<And>e. has_reference st \<Longrightarrow> is_verification e \<Longrightarrow> Q e" "\<And>m r. Q (CallPrintResult m r)"
    and P: "\<And>r. (\<not> has_reference st \<longrightarrow> status r) \<Longrightarrow> P r"
  shows "\<exists>res st'. tune_kernel w k st = Some (res, st') \<and> advances Q P st st'"
proof (cases "parameters (kernels st ! k) = []")
  case True
  then obtain r0 es v st' where
    steps: "list_all is_device_call es"
      "VerifyOutput w (st\<lparr>calls := calls st @ EnterRunKernel (TunedKernel k) 0 1 # es\<rparr>) = (v, st')"
      "tune_kernel w k st =
       Some (case v of
               Inl e \<Rightarrow> (Inl e, st')
             | Inr verified \<Rightarrow>
                 (Inr (), st'\<lparr>tuning_results := tuning_results st' @ [r0\<lparr>status := verified\<rparr>]\<rparr>))"
    by (rule plain_kernel_steps[of st k w]) blast
  let ?st2 = "st\<lparr>calls := calls st @ EnterRunKernel (TunedKernel k) 0 1 # es\<rparr>"
  have "list_all Q (EnterRunKernel (TunedKernel k) 0 1 # es)"
    using steps(1) Q(1,2) by (simp add: list_all_iff)
  then have a1: "advances Q P st ?st2" by (rule log_advances)
  have a2: "advances Q P ?st2 st'" and ok: "\<not> has_reference st \<Longrightarrow> v = Inr True"
  proof -
    show "advances Q P ?st2 st'"
    proof (cases "has_reference st")
      case True
      have "emits Q (VerifyOutput w)"
        by (rule emits_weaken[OF emits_VerifyOutput]) (rule Q(3)[OF True])
      then show ?thesis using steps(2) by (rule emits_advances)
    next
      case False
      with steps(2) have "st' = ?st2" by (simp add: VerifyOutput_without_reference)
      then show ?thesis by (simp add: advances_refl)
    qed
    show "\<not> has_reference st \<Longrightarrow> v = Inr True"
      using steps(2) by (simp add: VerifyOutput_without_reference)
  qed
  from a1 a2 have a12: "advances Q P st st'" by (rule advances_trans)
  show ?thesis
  proof (cases v)
    case (Inl e)
    with steps(3) a12 show ?thesis by simp
  next
    case (Inr verified)
    with ok have "\<not> has_reference st \<longrightarrow> status (r0\<lparr>status := verified\<rparr>)" by auto
    then have "P (r0\<lparr>status := verified\<rparr>)" by (rule P)
    from store_result_advances(1)[of P "r0\<lparr>status := verified\<rparr>" Q st', OF this]
    have "advances Q P st' (st'\<lparr>tuning_results := tuning_results st' @ [r0\<lparr>status := verified\<rparr>]\<rparr>)"
      by (simp add: store_result_def)
    with a12 Inr steps(3) show ?thesis by (auto intro: advances_trans)
  qed
next
  case False
  let ?kern = "kernels st ! k"
  show ?thesis
  proof (cases "of_reply (SetConfigurations (kernel_ops w) ?kern)")
    case (Inl e)
    with False have "tune_kernel w k st = Some (Inl e, st)" by (simp add: tune_kernel_def)
    then show ?thesis by (simp add: advances_refl)
  next
    case (Inr all_configurations)
    let ?st1 = "st\<lparr>kernels := (kernels st)[k := ?kern\<lparr>configurations := all_configurations\<rparr>]\<rparr>"
    have a1: "advances Q P st ?st1"
      unfolding advances_def by (auto intro: exI[of _ "[]"])
    show ?thesis
    proof (cases "new_searcher w (kernels ?st1 ! k) ?st1")
      case (Inl e)
      with False Inr have "tune_kernel w k st = Some (Inl e, ?st1)"
        by (simp add: tune_kernel_def Let_def)
      with a1 show ?thesis by simp
    next
      case (Inr search)
      have "\<exists>res st'. tune_loop w k 0 search ?st1 = Some (res, st') \<and> advances Q P st st'"
      proof (rule tune_loop_invariant[where Inv = "advances Q P st", OF steady _ a1])
        fix p s x res x'
        assume inv: "advances Q P st x" and it: "tune_iteration w k p s x = (res, x')"
        from inv have href: "has_reference x = has_reference st" by (simp add: advances_def)
        have "advances Q P x x'"
          using it
        proof (rule tune_iteration_advances)
          show "\<And>r. (\<not> has_reference x \<longrightarrow> status r) \<Longrightarrow> P r" using href P by simp
        qed (use Q href in simp_all)
        with inv show "advances Q P st x'" by (rule advances_trans)
      qed
      then obtain res st' where
        loop: "tune_loop w k 0 search ?st1 = Some (res, st')" and a: "advances Q P st st'" by blast
      from False \<open>of_reply (SetConfigurations (kernel_ops w) ?kern) = Inr all_configurations\<close> Inr loop
      have "tune_kernel w k st = Some (map_sum id (\<lambda>_. ()) res, st')"
        by (cases res) (simp_all add: tune_kernel_def Let_def)
      with a show ?thesis by simp
    qed
  qed
qed


lemma device_call_not_verification: "is_device_call e \<Longrightarrow> \<not> is_verification e"
  by (cases e) simp_all

lemma device_call_is_tuning: "is_device_call e \<Longrightarrow> is_tuning e"
  by (cases e) simp_all

lemma verification_is_tuning: "is_verification e \<Longrightarrow> is_tuning e"
  by (cases e) simp_all

lemma tune_kernels_advances:
  assumes steady: "steady_searcher w"
    and Q: "\<And>k cid n. Q (EnterRunKernel (TunedKernel k) cid n)" "\<And>e. is_device_call e \<Longrightarrow> Q e"
      "\<And>e. has_reference st \<Longrightarrow> is_verification e \<Longrightarrow> Q e" "\<And>m r. Q (CallPrintResult m r)"
    and P: "\<And>r. (\<not> has_reference st \<longrightarrow> status r) \<Longrightarrow> P r"
  shows "\<exists>res st'. tune_kernels w ks st = Some (res, st') \<and> advances Q P st st'"
  using Q(3) P
proof (induction ks arbitrary: st)
  case Nil
  show ?case by (simp add: advances_refl)
next
  case (Cons k ks)
  have "\<exists>res st'. tune_kernel w k st = Some (res, st') \<and> advances Q P st st'"
    by (rule tune_kernel_advances[OF steady]) (use Q(1,2,4) Cons.prems in blast)+
  then obtain res st1 where
    first: "tune_kernel w k st = Some (res, st1)" and a1: "advances Q P st st1" by blast
  show ?case
  proof (cases res)
    case (Inl e)
    with first a1 show ?thesis by simp
  next
    case (Inr u)
    from a1 have href: "has_reference st1 = has_reference st" by (simp add: advances_def)
    have "\<exists>res st'. tune_kernels w ks st1 = Some (res, st') \<and> advances Q P st1 st'"
      by (rule Cons.IH) (use href Cons.prems in auto)
    then obtain res' st' where
      "tune_kernels w ks st1 = Some (res', st')" "advances Q P st1 st'" by blast
    with first Inr a1 show ?thesis by (auto intro: advances_trans)
  qed
qed

subsection \<open>Tuning without a reference\<close>

text \<open>
  Claim C7. Without a reference kernel \<open>VerifyOutput\<close> returns true and leaves the state,
  the log included, as it is: nothing is downloaded or compared. With a searcher whose
  number of configurations is steady, \<open>Tune\<close> returns, every result it has stored has
  the status true, and its log holds no download, comparison or reported difference.
\<close>

theorem no_reference_skips_verification:
  assumes "\<not> has_reference st" and "steady_searcher w"
  shows "VerifyOutput w st = (Inr True, st) \<and>
         (\<exists>res st'. Tune w st = Some (res, st') \<and>
            list_all status (new_results st st') \<and>
            list_all (\<lambda>e. \<not> is_verification e) (new_calls st st'))"
proof -
  from assms(1) have ref: "run_reference w st = (Inr (), st)"
    by (simp add: run_reference_def return_exn_def)
  have "\<exists>res st'. tune_kernels w [0..<length (kernels st)] st = Some (res, st') \<and>
          advances (\<lambda>e. \<not> is_verification e) status st st'"
    by (rule tune_kernels_advances[OF assms(2)])
       (use assms(1) device_call_not_verification in auto)
  then obtain res st' where
    run: "tune_kernels w [0..<length (kernels st)] st = Some (res, st')"
    and a: "advances (\<lambda>e. \<not> is_verification e) status st st'"
    by blast
  from a have "list_all status (new_results st st')"
    "list_all (\<lambda>e. \<not> is_verification e) (new_calls st st')"
    by (auto simp: advances_def new_results_def new_calls_def)
  moreover from ref run have "Tune w st = Some (res, st')" by (simp add: Tune_def)
  ultimately show ?thesis using assms(1) by (simp add: VerifyOutput_without_reference)
qed

lemma steady_full_search: "steady_searcher (scripted_world runs opencl)"
  by (simp add: steady_searcher_def scripted_world_def full_search_def)

lemmas tune_eval =
  Tune_def run_reference_def tune_kernel_def tune_loop.simps tune_iteration_def
  measure_configuration_def compute_ranges_def store_result_def report_result_def
  new_searcher_def plain_kernel_ops_def full_search_def VerifyOutput_def wpt_kernel_def
  DBL_MAX_def max_finite_def pow2_def Let_def

lemma tune_without_reference:
  "map_option (\<lambda>r. (fst r, map time (tuning_results (snd r)), map status (tuning_results (snd r))))
     (Tune (scripted_world 1 (scripted_cl builds_fine counters_527 reads_zero))
        (initial_state False [wpt_kernel] [])) =
   Some (Inr (), [Fin 5, Fin 5], [True, True])"
  by (simp add: tune_eval run_eval counters_527_def elapsed_ms_5)

theorem no_reference_skips_verification_witness:
  "\<not> has_reference (initial_state False [wpt_kernel] []) \<and>
   steady_searcher (scripted_world 1 (scripted_cl builds_fine counters_527 reads_zero)) \<and>
   VerifyOutput (scripted_world 1 (scripted_cl builds_fine counters_527 reads_zero))
     (initial_state False [wpt_kernel] []) = (Inr True, initial_state False [wpt_kernel] []) \<and>
   map_option (\<lambda>r. (fst r, map time (tuning_results (snd r)), map status (tuning_results (snd r))))
     (Tune (scripted_world 1 (scripted_cl builds_fine counters_527 reads_zero))
        (initial_state False [wpt_kernel] [])) =
   Some (Inr (), [Fin 5, Fin 5], [True, True])"
proof -
  have ref: "\<not> has_reference (initial_state False [wpt_kernel] [])"
    by (simp add: initial_state_def)
  from no_reference_skips_verification [OF ref steady_full_search]
  have "VerifyOutput (scripted_world 1 (scripted_cl builds_fine counters_527 reads_zero))
     (initial_state False [wpt_kernel] []) = (Inr True, initial_state False [wpt_kernel] [])"
    by (rule conjunct1)
  with ref show ?thesis
    by (intro conjI) (rule steady_full_search tune_without_reference | assumption)+
qed


end
